theory Spec2Isabelle
  imports Main
begin

section \<open>Values, metadata and errors\<close>

text \<open>
  The query compiler of \<^verbatim>\<open>SqlHelper\<close> works on untyped JavaScript values: the where
  expression, the bound parameters and the rows to insert. \<open>jsval\<close> is that value
  universe. An object is the list of its own enumerable entries in the order
  \<^verbatim>\<open>Object.entries\<close> yields them. Numbers and dates are never computed with by the
  compiler (they are only bound as parameters), so an integer payload stands for them.
  Members inherited from a prototype (\<^verbatim>\<open>constructor\<close>, \<^verbatim>\<open>toString\<close>, the array methods)
  are outside the model: property names are taken not to collide with them.
\<close>

datatype jsval =
    JUndefined
  | JNull
  | JStr string
  | JNum int
  | JBool bool
  | JDate int
  | JArr "jsval list"
  | JObj "(string \<times> jsval) list"

text \<open>
  Every \<^verbatim>\<open>throw new Error(...)\<close> of the source is one constructor, carrying the values
  interpolated into its message. \<open>TypeError\<close> is the runtime error of JavaScript itself
  (iterating a value that is not iterable, calling \<^verbatim>\<open>toLowerCase\<close> on a value that is not
  a string, reading a property of \<^verbatim>\<open>undefined\<close>); \<open>RangeError\<close> is the exhausted call
  stack of a recursion that never ends.
\<close>

datatype error =
    UndefinedValue string string
  | UnknownRelatedModel string
  | InvalidConstraintValues string string string
  | InvalidConstraint string string string
  | PropertyNameNotDefined
  | UnknownProperty string string
  | UnsupportedOperator string string string string
  | MissingRequiredField string string
  | UnknownRelatedModelOnInsert string string string
  | MissingRelatedPrimaryKeyColumn string string string
  | UndefinedPrimaryKeyValue string string
  | TypeError
  | RangeError

text \<open>An attribute of a \<^verbatim>\<open>ModelSchema\<close>, as the where compiler reads it.\<close>

record attribute =
  columnName :: "string option"
  type :: "string option"
  model :: "string option"
  primaryKey :: bool
  collection :: "string option"

record ModelSchema =
  globalId :: string
  tableName :: string
  attributes :: "(string \<times> attribute) list"

type_synonym ModelSchemasByGlobalId = "string \<Rightarrow> ModelSchema option"

subsection \<open>JavaScript primitives used by the compiler\<close>

text \<open>\<^verbatim>\<open>obj[key]\<close> on an own property: the entry, or \<^verbatim>\<open>undefined\<close>.\<close>

fun lookup :: "(string \<times> 'a) list \<Rightarrow> string \<Rightarrow> 'a option" where
  "lookup [] k = None"
| "lookup ((k', v) # es) k = (if k' = k then Some v else lookup es k)"

fun digit_char :: "nat \<Rightarrow> char" where
  "digit_char d = ''0123456789'' ! d"

function show_nat :: "nat \<Rightarrow> string" where
  "show_nat n =
     (if n < 10 then [digit_char n] else show_nat (n div 10) @ [digit_char (n mod 10)])"
  by pat_completeness auto
termination
  by (relation "measure id") auto

declare show_nat.simps [simp del]

text \<open>
  The value of \<^verbatim>\<open>value[key]\<close> for the values on which the compiler reads a property:
  an own entry of an object; \<^verbatim>\<open>length\<close> and the canonical indices of an array; nothing
  on a date.
\<close>

definition get_prop :: "jsval \<Rightarrow> string \<Rightarrow> jsval" where
  "get_prop v k =
     (case v of
        JObj es \<Rightarrow> (case lookup es k of None \<Rightarrow> JUndefined | Some x \<Rightarrow> x)
      | JArr xs \<Rightarrow>
          (if k = ''length'' then JNum (int (length xs))
           else (case filter (\<lambda>i. show_nat i = k) [0..<length xs] of
                   [] \<Rightarrow> JUndefined
                 | i # _ \<Rightarrow> xs ! i))
      | _ \<Rightarrow> JUndefined)"

text \<open>\<^verbatim>\<open>_.isObject\<close>: arrays, plain objects and dates.\<close>

fun isObject :: "jsval \<Rightarrow> bool" where
  "isObject (JArr xs) = True"
| "isObject (JObj es) = True"
| "isObject (JDate d) = True"
| "isObject v = False"

fun isString :: "jsval \<Rightarrow> bool" where
  "isString (JStr s) = True"
| "isString v = False"

fun isNull :: "jsval \<Rightarrow> bool" where
  "isNull JNull = True"
| "isNull v = False"

fun str_of :: "jsval \<Rightarrow> string" where
  "str_of (JStr s) = s"
| "str_of v = []"

text \<open>Truthiness of an optional string: \<^verbatim>\<open>undefined\<close> and \<^verbatim>\<open>''\<close> are falsy.\<close>

fun truthy :: "string option \<Rightarrow> bool" where
  "truthy None = False"
| "truthy (Some s) = (s \<noteq> [])"

text \<open>
  \<^verbatim>\<open>String.prototype.toLowerCase\<close> on the ASCII letters; every other character is
  left as it is.
\<close>

definition lower_char :: "char \<Rightarrow> char" where
  "lower_char c =
     (let n = (of_char c :: nat) in if 65 \<le> n \<and> n \<le> 90 then char_of (n + 32) else c)"

definition toLowerCase :: "string \<Rightarrow> string" where
  "toLowerCase s = map lower_char s"

text \<open>\<^verbatim>\<open>Array.prototype.join\<close> on strings.\<close>

fun join :: "string \<Rightarrow> string list \<Rightarrow> string" where
  "join sep [] = []"
| "join sep [x] = x"
| "join sep (x # y # ys) = x @ sep @ join sep (y # ys)"

subsection \<open>Schema lookups\<close>

text \<open>\<^verbatim>\<open>SqlHelper.getPrimaryKeyPropertyName\<close>.\<close>

fun getPrimaryKeyPropertyName_entries :: "(string \<times> attribute) list \<Rightarrow> string" where
  "getPrimaryKeyPropertyName_entries [] = ''id''"
| "getPrimaryKeyPropertyName_entries ((name, a) # es) =
     (if primaryKey a then name else getPrimaryKeyPropertyName_entries es)"

definition getPrimaryKeyPropertyName :: "ModelSchema \<Rightarrow> string" where
  "getPrimaryKeyPropertyName schema = getPrimaryKeyPropertyName_entries (attributes schema)"

text \<open>\<^verbatim>\<open>SqlHelper._getColumnName\<close>.\<close>

definition getColumnName :: "ModelSchema \<Rightarrow> string option \<Rightarrow> error + string" where
  "getColumnName schema propertyName =
     (if \<not> truthy propertyName then Inl PropertyNameNotDefined
      else (case lookup (attributes schema) (the propertyName) of
              None \<Rightarrow> Inl (UnknownProperty (the propertyName) (globalId schema))
            | Some property \<Rightarrow>
                Inr (if truthy (columnName property) then the (columnName property)
                     else the propertyName)))"

text \<open>
  The lower-cased declared type of the attribute found under the property name or,
  failing that, under the comparer:
  \<^verbatim>\<open>property && property.type ? property.type.toLowerCase() : ''\<close>.
\<close>

definition attributeOf :: "ModelSchema \<Rightarrow> string option \<Rightarrow> attribute option" where
  "attributeOf schema key =
     (if truthy key then lookup (attributes schema) (the key) else None)"

definition loweredType :: "attribute option \<Rightarrow> string" where
  "loweredType property =
     (case property of
        None \<Rightarrow> []
      | Some a \<Rightarrow> (if truthy (type a) then toLowerCase (the (type a)) else []))"

definition propertyOrComparerType :: "ModelSchema \<Rightarrow> string option \<Rightarrow> string option \<Rightarrow> string" where
  "propertyOrComparerType schema propertyName comparer =
     loweredType (case attributeOf schema propertyName of
                    Some a \<Rightarrow> Some a
                  | None \<Rightarrow> attributeOf schema comparer)"

definition isArrayType :: "string \<Rightarrow> bool" where
  "isArrayType t \<longleftrightarrow>
     t = ''array'' \<or> t = ''string[]'' \<or> t = ''integer[]'' \<or> t = ''float[]'' \<or> t = ''boolean[]''"

definition castType :: "string \<Rightarrow> string" where
  "castType propertyType =
     (if propertyType = ''int'' \<or> propertyType = ''integer'' \<or> propertyType = ''integer[]''
      then ''::INTEGER[]''
      else if propertyType = ''float'' \<or> propertyType = ''float[]'' then ''::NUMERIC[]''
      else if propertyType = ''boolean'' \<or> propertyType = ''boolean[]'' then ''::BOOLEAN[]''
      else ''::TEXT[]'')"

section \<open>The where-clause compiler\<close>

text \<open>
  A compiled fragment is the SQL text together with the parameter array after the
  call: the source appends to one shared \<^verbatim>\<open>params\<close> array, the model passes the array
  in and returns it extended. \<^verbatim>\<open>$${params.length}\<close> is \<open>placeholder params\<close>.
\<close>

type_synonym fragment = "string \<times> jsval list"

definition placeholder :: "jsval list \<Rightarrow> string" where
  "placeholder params = ''$'' @ show_nat (length params)"

fun orUndefined :: "string option \<Rightarrow> string" where
  "orUndefined None = ''undefined''"
| "orUndefined (Some s) = s"

fun orEmpty :: "string option \<Rightarrow> string" where
  "orEmpty None = []"
| "orEmpty (Some s) = s"

text \<open>\<^verbatim>\<open>SqlHelper._isComparer\<close>.\<close>

definition isComparer :: "string \<Rightarrow> bool" where
  "isComparer v \<longleftrightarrow>
     v = ''!'' \<or> v = ''not'' \<or> v = ''or'' \<or> v = ''and'' \<or> v = ''contains'' \<or>
     v = ''startsWith'' \<or> v = ''endsWith'' \<or> v = ''like'' \<or>
     v = ''<'' \<or> v = ''<='' \<or> v = ''>'' \<or> v = ''>=''"

text \<open>\<^verbatim>\<open>SqlHelper._buildComparisonOperatorStatement\<close>.\<close>

definition buildComparisonOperatorStatement ::
  "ModelSchema \<Rightarrow> string option \<Rightarrow> string option \<Rightarrow> bool \<Rightarrow> jsval \<Rightarrow> jsval list
     \<Rightarrow> error + fragment" where
  \<open>buildComparisonOperatorStatement schema propertyName comparer isNegated v params =
     (case getColumnName schema propertyName of
        Inl e \<Rightarrow> Inl e
      | Inr cname \<Rightarrow>
          if v = JNull
          then Inr (''"'' @ cname @ ''" '' @ (if isNegated then ''IS NOT'' else ''IS'')
                      @ '' NULL'', params)
          else
            let params' = params @ [v];
                propertyType =
                  (case lookup (attributes schema) (the propertyName) of
                     None \<Rightarrow> None
                   | Some property \<Rightarrow> type property);
                supportsLessThanGreaterThan =
                  (propertyType \<noteq> Some ''array'' \<and> propertyType \<noteq> Some ''json'');
                unsupported =
                  (\<lambda>operator. Inl (UnsupportedOperator operator
                     (if truthy propertyType then the propertyType else ''unknown'')
                     (orEmpty propertyName) (globalId schema)))
            in
              if comparer = Some ''<'' then
                (if \<not> supportsLessThanGreaterThan then unsupported ''<''
                 else Inr (''"'' @ cname @ ''"'' @ (if isNegated then ''>='' else ''<'')
                             @ placeholder params', params'))
              else if comparer = Some ''<='' then
                (if \<not> supportsLessThanGreaterThan then unsupported ''<=''
                 else Inr (''"'' @ cname @ ''"'' @ (if isNegated then ''>'' else ''<='')
                             @ placeholder params', params'))
              else if comparer = Some ''>'' then
                (if \<not> supportsLessThanGreaterThan then unsupported ''>''
                 else Inr (''"'' @ cname @ ''"'' @ (if isNegated then ''<='' else ''>'')
                             @ placeholder params', params'))
              else if comparer = Some ''>='' then
                (if \<not> supportsLessThanGreaterThan then unsupported ''>=''
                 else Inr (''"'' @ cname @ ''"'' @ (if isNegated then ''<'' else ''>='')
                             @ placeholder params', params'))
              else if propertyType = Some ''array'' then
                Inr (placeholder params' @ (if isNegated then ''<>ALL('' else ''=ANY('')
                       @ ''"'' @ cname @ ''")'', params')
              else
                Inr (''"'' @ cname @ ''"'' @ (if isNegated then ''<>'' else ''='')
                       @ placeholder params', params'))\<close>

text \<open>
  \<^verbatim>\<open>SqlHelper._buildLikeOperatorStatement\<close>, in the three parts of its body: an array
  of several patterns, one string pattern, and the dispatch between them.
\<close>

definition likeValues ::
  "ModelSchema \<Rightarrow> string option \<Rightarrow> bool \<Rightarrow> jsval list \<Rightarrow> jsval list \<Rightarrow> error + fragment" where
  \<open>likeValues schema propertyName isNegated vs params =
     (if \<not> list_all isString vs then Inl TypeError
      else
        (case getColumnName schema propertyName of
           Inl e \<Rightarrow> Inl e
         | Inr cname \<Rightarrow>
             let params' = params @ [JArr (map (\<lambda>val. JStr (toLowerCase (str_of val))) vs)];
                 propertyType = loweredType (attributeOf schema propertyName)
             in
               if propertyType = ''array'' \<or> propertyType = ''string[]'' then
                 Inr (''EXISTS(SELECT 1 FROM (SELECT unnest("'' @ cname
                        @ ''") AS "unnested_'' @ cname
                        @ ''") __unnested WHERE lower("unnested_'' @ cname @ ''")''
                        @ (if isNegated then ''<>ALL'' else ''=ANY'')
                        @ ''('' @ placeholder params' @ ''::TEXT[]))'', params')
               else
                 Inr (''lower("'' @ cname @ ''")''
                        @ (if isNegated then ''<>ALL'' else ''=ANY'')
                        @ ''('' @ placeholder params' @ ''::TEXT[])'', params')))\<close>

definition likeValue ::
  "ModelSchema \<Rightarrow> string option \<Rightarrow> bool \<Rightarrow> jsval \<Rightarrow> jsval list \<Rightarrow> error + fragment" where
  \<open>likeValue schema propertyName isNegated v params =
     (case v of
        JStr s \<Rightarrow>
          (case getColumnName schema propertyName of
             Inl e \<Rightarrow> Inl e
           | Inr cname \<Rightarrow>
               if s \<noteq> [] then
                 let params' = params @ [JStr s];
                     propertyType = loweredType (attributeOf schema propertyName)
                 in
                   if propertyType = ''array'' \<or> propertyType = ''string[]'' then
                     Inr ((if isNegated then ''NOT '' else [])
                            @ ''EXISTS(SELECT 1 FROM (SELECT unnest("'' @ cname
                            @ ''") AS "unnested_'' @ cname
                            @ ''") __unnested WHERE "unnested_'' @ cname
                            @ ''" ILIKE '' @ placeholder params' @ '')'', params')
                   else
                     Inr (''"'' @ cname @ ''"'' @ (if isNegated then '' NOT'' else [])
                            @ '' ILIKE '' @ placeholder params', params')
               else
                 Inr (''"'' @ cname @ ''" '' @ (if isNegated then ''!='' else ''='')
                        @ '' '' @ [CHR 0x27, CHR 0x27], params))
      | _ \<Rightarrow> Inl (InvalidConstraint ''like'' (orUndefined propertyName) (globalId schema)))\<close>

definition buildLikeOperatorStatement ::
  "ModelSchema \<Rightarrow> string option \<Rightarrow> bool \<Rightarrow> jsval \<Rightarrow> jsval list \<Rightarrow> error + fragment" where
  "buildLikeOperatorStatement schema propertyName isNegated v params =
     (case v of
        JArr vs \<Rightarrow>
          (if vs = [] then Inr (if isNegated then ''1=1'' else ''1<>1'', params)
           else if length vs > 1 then likeValues schema propertyName isNegated vs params
           else likeValue schema propertyName isNegated (hd vs) params)
      | _ \<Rightarrow> likeValue schema propertyName isNegated v params)"

text \<open>
  The relation dereference of \<^verbatim>\<open>_buildWhere\<close> (its default branch, before the array
  test): the primary-key value of a hydrated relation object, when the property is a
  relation and the object carries that key.
\<close>

definition hydratedValue ::
  "ModelSchemasByGlobalId \<Rightarrow> ModelSchema \<Rightarrow> string option \<Rightarrow> jsval \<Rightarrow> error + jsval option" where
  "hydratedValue modelSchemasByGlobalId schema propertyName v =
     (if truthy propertyName then
        (case lookup (attributes schema) (the propertyName) of
           None \<Rightarrow> Inr None
         | Some modelAttribute \<Rightarrow>
             if truthy (model modelAttribute) \<and> isObject v then
               (case modelSchemasByGlobalId (toLowerCase (the (model modelAttribute))) of
                  None \<Rightarrow> Inl (UnknownRelatedModel (the (model modelAttribute)))
                | Some relationSchema \<Rightarrow>
                    let relationPrimaryKey = getPrimaryKeyPropertyName relationSchema in
                      if get_prop v relationPrimaryKey \<noteq> JUndefined
                      then Inr (Some (get_prop v relationPrimaryKey))
                      else Inr None)
             else Inr None)
      else Inr None)"

text \<open>The final combination of the array branch and of the or statement.\<close>

definition combine :: "bool \<Rightarrow> string list \<Rightarrow> string" where
  "combine isNegated constraints =
     (if length constraints = 1 then hd constraints
      else if isNegated then join '' AND '' constraints
      else ''('' @ join '' OR '' constraints @ '')'')"

text \<open>The value the dispatch of \<^verbatim>\<open>_buildWhere\<close> switches on: \<^verbatim>\<open>comparer || propertyName\<close>.\<close>

definition switchKey :: "string option \<Rightarrow> string option \<Rightarrow> string option" where
  "switchKey comparer propertyName = (if truthy comparer then comparer else propertyName)"

text \<open>
  The size of a value that the recursion of the compiler descends on, and the rank of a
  dispatch key: a negation is followed by the dispatch on the property name, a pattern
  operator by the dispatch on \<^verbatim>\<open>like\<close>.
\<close>

definition keyRank :: "string option \<Rightarrow> nat" where
  "keyRank key =
     (if key = Some ''!'' \<or> key = Some ''not'' then 4
      else if key = Some ''contains'' \<or> key = Some ''startsWith'' \<or> key = Some ''endsWith''
      then 3
      else 2)"


fun vsize :: "jsval \<Rightarrow> nat" where
  "vsize (JArr vs) = Suc (sum_list (map vsize vs))"
| "vsize (JObj es) = Suc (sum_list (map (\<lambda>e. vsize (snd e)) es))"
| "vsize v = 0"

text \<open>
  \<^verbatim>\<open>SqlHelper._buildWhere\<close> and \<^verbatim>\<open>SqlHelper._buildOrOperatorStatement\<close>, with the loops
  of their bodies: \<open>buildEach\<close> compiles the elements of an array one after the other under
  one property name (the loop over the \<^verbatim>\<open>null\<close> items, the loop over the values queried
  against an array column, and the loop of the or statement, which passes no property
  name); \<open>buildAndValues\<close> is the loop over the entries of a nested object, where a key
  that is no comparer replaces the property name for the entries after it too.

  A \<^verbatim>\<open>not\<close> under a property itself named \<^verbatim>\<open>not\<close> or \<^verbatim>\<open>!\<close> calls itself with the same
  arguments for ever; JavaScript ends that with a \<open>RangeError\<close>. A string given to the or
  statement is iterated by its characters, and each one-character constraint reaches
  \<^verbatim>\<open>_getColumnName\<close> without a property name.
\<close>

function
  buildWhere ::
    "ModelSchemasByGlobalId \<Rightarrow> ModelSchema \<Rightarrow> string option \<Rightarrow> string option \<Rightarrow> bool
       \<Rightarrow> jsval \<Rightarrow> jsval list \<Rightarrow> error + fragment"
  and buildOrOperatorStatement ::
    "ModelSchemasByGlobalId \<Rightarrow> ModelSchema \<Rightarrow> bool \<Rightarrow> jsval \<Rightarrow> jsval list \<Rightarrow> error + fragment"
  and buildEach ::
    "ModelSchemasByGlobalId \<Rightarrow> ModelSchema \<Rightarrow> string option \<Rightarrow> bool \<Rightarrow> jsval list
       \<Rightarrow> jsval list \<Rightarrow> error + (string list \<times> jsval list)"
  and buildAndValues ::
    "ModelSchemasByGlobalId \<Rightarrow> ModelSchema \<Rightarrow> string option \<Rightarrow> bool \<Rightarrow> (string \<times> jsval) list
       \<Rightarrow> jsval list \<Rightarrow> error + (string list \<times> jsval list)"
where
  \<open>buildWhere S schema propertyName comparer isNegated v params =
     (let key = switchKey comparer propertyName in
      if key = Some ''!'' \<or> key = Some ''not'' then
        (if propertyName = Some ''!'' \<or> propertyName = Some ''not'' then Inl RangeError
         else buildWhere S schema propertyName None True v params)
      else if key = Some ''or'' then
        buildOrOperatorStatement S schema isNegated v params
      else if key = Some ''contains'' then
        (case v of
           JArr vs \<Rightarrow>
             if list_all isString vs then
               buildWhere S schema propertyName (Some ''like'') isNegated
                 (JArr (map (\<lambda>val. JStr (''%'' @ str_of val @ ''%'')) vs)) params
             else Inl (InvalidConstraintValues ''contains'' (orUndefined propertyName)
                         (globalId schema))
         | JStr s \<Rightarrow>
             buildWhere S schema propertyName (Some ''like'') isNegated
               (JStr (''%'' @ s @ ''%'')) params
         | _ \<Rightarrow> Inl (InvalidConstraint ''contains'' (orUndefined propertyName)
                       (globalId schema)))
      else if key = Some ''startsWith'' then
        (case v of
           JArr vs \<Rightarrow>
             if list_all isString vs then
               buildWhere S schema propertyName (Some ''like'') isNegated
                 (JArr (map (\<lambda>val. JStr (str_of val @ ''%'')) vs)) params
             else Inl (InvalidConstraintValues ''startsWith'' (orUndefined propertyName)
                         (globalId schema))
         | JStr s \<Rightarrow>
             buildWhere S schema propertyName (Some ''like'') isNegated
               (JStr (s @ ''%'')) params
         | _ \<Rightarrow> Inl (InvalidConstraint ''startsWith'' (orUndefined propertyName)
                       (globalId schema)))
      else if key = Some ''endsWith'' then
        (case v of
           JArr vs \<Rightarrow>
             if list_all isString vs then
               buildWhere S schema propertyName (Some ''like'') isNegated
                 (JArr (map (\<lambda>val. JStr (''%'' @ str_of val)) vs)) params
             else Inl (InvalidConstraintValues ''endsWith'' (orUndefined propertyName)
                         (globalId schema))
         | JStr s \<Rightarrow>
             buildWhere S schema propertyName (Some ''like'') isNegated
               (JStr (''%'' @ s)) params
         | _ \<Rightarrow> Inl (InvalidConstraint ''endsWith'' (orUndefined propertyName)
                       (globalId schema)))
      else if key = Some ''like'' then
        buildLikeOperatorStatement schema propertyName isNegated v params
      else if v = JUndefined then
        Inl (UndefinedValue (orEmpty propertyName) (globalId schema))
      else
        (case hydratedValue S schema propertyName v of
           Inl e \<Rightarrow> Inl e
         | Inr (Some primaryKeyValue) \<Rightarrow>
             buildWhere S schema propertyName comparer isNegated primaryKeyValue params
         | Inr None \<Rightarrow>
             (case v of
                JArr vs \<Rightarrow>
                  if vs = [] then
                    (if isArrayType (propertyOrComparerType schema propertyName comparer) then
                       (case getColumnName schema propertyName of
                          Inl e \<Rightarrow> Inl e
                        | Inr arrayColumnName \<Rightarrow>
                            Inr (''"'' @ arrayColumnName @ ''"''
                                   @ (if isNegated then ''<>'' else ''='')
                                   @ [CHR 0x27] @ ''{}'' @ [CHR 0x27], params))
                     else Inr (if isNegated then ''1=1'' else ''1<>1'', params))
                  else
                    (case buildEach S schema propertyName isNegated (filter isNull vs) params of
                       Inl e \<Rightarrow> Inl e
                     | Inr (nullConstraints, params1) \<Rightarrow>
                         let valueWithoutNull = filter (\<lambda>item. \<not> isNull item) vs in
                         (case
                            (if length valueWithoutNull = 1 then
                               (case buildWhere S schema propertyName None isNegated
                                       (hd valueWithoutNull) params1 of
                                  Inl e \<Rightarrow> Inl e
                                | Inr (c, params2) \<Rightarrow> Inr ([c], params2))
                             else if valueWithoutNull \<noteq> [] then
                               (case getColumnName schema propertyName of
                                  Inl e \<Rightarrow> Inl e
                                | Inr cname \<Rightarrow>
                                    let propertyType =
                                          propertyOrComparerType schema propertyName comparer
                                    in
                                      if isArrayType propertyType then
                                        buildEach S schema propertyName isNegated
                                          valueWithoutNull params1
                                      else
                                        let params2 = params1 @ [JArr valueWithoutNull] in
                                          Inr ([''"'' @ cname @ ''"''
                                                  @ (if isNegated then ''<>ALL'' else ''=ANY'')
                                                  @ ''('' @ placeholder params2
                                                  @ castType propertyType @ '')''], params2))
                             else Inr ([], params1)) of
                            Inl e \<Rightarrow> Inl e
                          | Inr (valueConstraints, params3) \<Rightarrow>
                              Inr (combine isNegated (nullConstraints @ valueConstraints),
                                   params3)))
              | JObj es \<Rightarrow>
                  (case buildAndValues S schema propertyName isNegated es params of
                     Inl e \<Rightarrow> Inl e
                   | Inr (andValues, params1) \<Rightarrow> Inr (join '' AND '' andValues, params1))
              | _ \<Rightarrow>
                  buildComparisonOperatorStatement schema propertyName comparer isNegated
                    v params)))\<close>
| \<open>buildOrOperatorStatement S schema isNegated v params =
     (case v of
        JArr vs \<Rightarrow>
          (case buildEach S schema None isNegated vs params of
             Inl e \<Rightarrow> Inl e
           | Inr (clauses, params1) \<Rightarrow>
               Inr (combine isNegated (map (\<lambda>orClause. ''('' @ orClause @ '')'') clauses),
                    params1))
      | JStr s \<Rightarrow>
          (if s = [] then Inr (combine isNegated [], params)
           else Inl PropertyNameNotDefined)
      | _ \<Rightarrow> Inl TypeError)\<close>
| \<open>buildEach S schema propertyName isNegated [] params = Inr ([], params)\<close>
| \<open>buildEach S schema propertyName isNegated (item # items) params =
     (case buildWhere S schema propertyName None isNegated item params of
        Inl e \<Rightarrow> Inl e
      | Inr (c, params1) \<Rightarrow>
          (case buildEach S schema propertyName isNegated items params1 of
             Inl e \<Rightarrow> Inl e
           | Inr (cs, params2) \<Rightarrow> Inr (c # cs, params2)))\<close>
| \<open>buildAndValues S schema propertyName isNegated [] params = Inr ([], params)\<close>
| \<open>buildAndValues S schema propertyName isNegated ((key, w) # es) params =
     (let subQueryComparer = (if isComparer key then Some key else None);
          propertyName1 = (if isComparer key then propertyName else Some key)
      in
        (case buildWhere S schema propertyName1 subQueryComparer isNegated w params of
           Inl e \<Rightarrow> Inl e
         | Inr (c, params1) \<Rightarrow>
             (case buildAndValues S schema propertyName1 isNegated es params1 of
                Inl e \<Rightarrow> Inl e
              | Inr (cs, params2) \<Rightarrow> Inr (c # cs, params2))))\<close>
  by pat_completeness auto

subsection \<open>Termination of the compiler\<close>

lemma switchKey_like [simp]: "switchKey (Some ''like'') p = Some ''like''"
  by (simp add: switchKey_def)

lemma switchKey_None [simp]: "switchKey None p = p"
  by (simp add: switchKey_def)

lemma keyRank_bounds: "2 \<le> keyRank k" "keyRank k \<le> 4"
  by (simp_all add: keyRank_def)

lemma keyRank_simps [simp]:
  "keyRank (Some ''like'') = 2"
  "keyRank (Some ''!'') = 4"
  "keyRank (Some ''not'') = 4"
  "keyRank (Some ''contains'') = 3"
  "keyRank (Some ''startsWith'') = 3"
  "keyRank (Some ''endsWith'') = 3"
  by (simp_all add: keyRank_def)

lemma keyRank_lt [simp]: "keyRank k < 6 + n" "Suc 0 < keyRank k"
  by (simp_all add: keyRank_def)

lemma keyRank_pattern:
  "Some ''contains'' = k \<Longrightarrow> 2 < keyRank k"
  "Some ''startsWith'' = k \<Longrightarrow> 2 < keyRank k"
  "Some ''endsWith'' = k \<Longrightarrow> 2 < keyRank k"
  by (auto simp: keyRank_def)

lemma keyRank_negation:
  "k = Some ''!'' \<or> k = Some ''not'' \<Longrightarrow> p \<noteq> Some ''!'' \<and> p \<noteq> Some ''not'' \<Longrightarrow> keyRank p < keyRank k"
  by (auto simp: keyRank_def)

lemma zero_or_positive: "0 < (n::nat) \<or> n = 0"
  by auto

lemma sum_list_zero_or_positive: "0 < sum_list (map f xs) \<or> (\<forall>n\<in>set xs. f n = (0::nat))"
  by (cases "sum_list (map f xs) = 0") auto

lemma keyRank_no_not: "p \<noteq> Some ''!'' \<Longrightarrow> p \<noteq> Some ''not'' \<Longrightarrow> keyRank p < 4"
  by (simp add: keyRank_def)

lemma vsize_mem: "x \<in> set xs \<Longrightarrow> vsize x \<le> sum_list (map vsize xs)"
  by (induction xs) auto

lemma vsize_filter: "sum_list (map vsize (filter P xs)) \<le> sum_list (map vsize xs)"
  by (induction xs) auto

lemma vsize_strings_map: "sum_list (map (\<lambda>x. vsize (JStr (f x))) xs) = 0"
  by (induction xs) auto

lemma vsize_strings: "list_all isString xs \<Longrightarrow> sum_list (map vsize xs) = 0"
  by (induction xs) (auto elim: isString.elims)

lemma vsize_lookup: "lookup es k = Some x \<Longrightarrow> vsize x \<le> sum_list (map (\<lambda>e. vsize (snd e)) es)"
  by (induction es) (auto split: if_splits)

lemma vsize_get_prop: "get_prop v k \<noteq> JUndefined \<Longrightarrow> vsize (get_prop v k) < vsize v"
proof (cases v)
  case (JArr xs)
  show ?thesis
  proof (cases "k = ''length''")
    case True
    with JArr show ?thesis by (simp add: get_prop_def)
  next
    case False
    show ?thesis
    proof (cases "filter (\<lambda>i. show_nat i = k) [0..<length xs]")
      case Nil
      with JArr False show ?thesis using Nil by (simp add: get_prop_def)
    next
      case (Cons i rest)
      then have "i \<in> set (filter (\<lambda>i. show_nat i = k) [0..<length xs])" by simp
      then have "i < length xs" by simp
      then have "vsize (xs ! i) \<le> sum_list (map vsize xs)" by (simp add: vsize_mem)
      with JArr False Cons show ?thesis by (simp add: get_prop_def)
    qed
  qed
next
  case (JObj es)
  assume "get_prop v k \<noteq> JUndefined"
  with JObj show ?thesis
    by (auto simp: get_prop_def less_Suc_eq_le split: option.splits dest: vsize_lookup)
qed (simp_all add: get_prop_def)

lemma vsize_hydrated: "hydratedValue S schema propertyName v = Inr (Some x) \<Longrightarrow> vsize x < vsize v"
  by (auto simp: hydratedValue_def Let_def vsize_get_prop split: if_splits option.splits)

lemma hd_filter_mem: "length (filter P xs) = 1 \<Longrightarrow> hd (filter P xs) \<in> set xs"
  by (metis One_nat_def filter_is_subset hd_in_set length_0_conv subsetD zero_neq_one)

text \<open>Every call of the compiler returns: the recursion descends on the value.\<close>

termination buildWhere
  apply (relation "measures
      [(\<lambda>x. case x of
          Inl (Inl (S, schema, propertyName, comparer, isNegated, v, params)) \<Rightarrow> vsize v
        | Inl (Inr (S, schema, isNegated, v, params)) \<Rightarrow> vsize v
        | Inr (Inl (S, schema, propertyName, isNegated, vs, params)) \<Rightarrow> sum_list (map vsize vs)
        | Inr (Inr (S, schema, propertyName, isNegated, es, params)) \<Rightarrow>
            sum_list (map (\<lambda>e. vsize (snd e)) es)),
       (\<lambda>x. case x of
          Inl (Inl (S, schema, propertyName, comparer, isNegated, v, params)) \<Rightarrow>
            keyRank (switchKey comparer propertyName)
        | Inl (Inr (S, schema, isNegated, v, params)) \<Rightarrow> 1
        | Inr (Inl (S, schema, propertyName, isNegated, vs, params)) \<Rightarrow> 5 + length vs
        | Inr (Inr (S, schema, propertyName, isNegated, es, params)) \<Rightarrow> 5 + length es)]")
  apply (simp_all add: comp_def vsize_strings vsize_strings_map less_Suc_eq_le vsize_filter vsize_mem hd_filter_mem vsize_hydrated
      order.trans[OF vsize_mem vsize_filter] keyRank_no_not keyRank_pattern keyRank_negation zero_or_positive sum_list_zero_or_positive)
  done

declare buildWhere.simps [simp del]

text \<open>
  \<^verbatim>\<open>SqlHelper._buildWhereStatement\<close>. The statement is \<^verbatim>\<open>undefined\<close> (\<open>None\<close>) when
  \<^verbatim>\<open>where\<close> is no object, and is left as the compiled text when that text is empty.
\<close>

definition buildWhereStatement ::
  "ModelSchemasByGlobalId \<Rightarrow> ModelSchema \<Rightarrow> jsval \<Rightarrow> jsval list
     \<Rightarrow> error + (string option \<times> jsval list)" where
  "buildWhereStatement S schema whereQuery params =
     (if isObject whereQuery then
        (case buildWhere S schema None (Some ''and'') False whereQuery params of
           Inl e \<Rightarrow> Inl e
         | Inr (whereStatement, params1) \<Rightarrow>
             Inr (if whereStatement \<noteq> [] then Some (''WHERE '' @ whereStatement)
                  else Some whereStatement, params1))
      else Inr (None, params))"

section \<open>Statement builders\<close>

record QueryAndParams =
  query :: string
  params :: "jsval list"

text \<open>
  \<^verbatim>\<open>SqlHelper.getDeleteQueryAndParams\<close>. With \<^verbatim>\<open>returnRecords\<close> the source calls
  \<^verbatim>\<open>_getColumnsToSelect({schema, select})\<close>, whose parameter is named \<^verbatim>\<open>model\<close>: the callee
  reads a property of \<^verbatim>\<open>undefined\<close>.
\<close>

definition getDeleteQueryAndParams ::
  "ModelSchemasByGlobalId \<Rightarrow> ModelSchema \<Rightarrow> jsval \<Rightarrow> bool \<Rightarrow> string list option
     \<Rightarrow> error + QueryAndParams" where
  \<open>getDeleteQueryAndParams S schema whereQuery returnRecords returnSelect =
     (let query0 = ''DELETE FROM "'' @ tableName schema @ ''"'' in
        (case buildWhereStatement S schema whereQuery [] of
           Inl e \<Rightarrow> Inl e
         | Inr (whereStatement, params1) \<Rightarrow>
             let query1 = (if truthy whereStatement then query0 @ '' '' @ the whereStatement
                           else query0)
             in if returnRecords then Inl TypeError
                else Inr \<lparr>query = query1, params = params1\<rparr>))\<close>

text \<open>
  The column metadata the select and insert builders read. \<open>defaultsTo\<close> is a value
  (\<open>DefaultValue JUndefined\<close> when the column declares none) or a zero-argument producer,
  given by the value it returns when the builder calls it.
\<close>

datatype defaultsTo_spec = DefaultValue jsval | DefaultFunction jsval

record ColumnMetadata =
  name :: string
  propertyName :: string
  type :: "string option"
  required :: bool
  defaultsTo :: defaultsTo_spec
  createDate :: bool
  updateDate :: bool
  model :: "string option"
  collection :: "string option"

text \<open>
  \<^verbatim>\<open>ModelMetadata\<close> is declared outside the files at hand; the builders read its table
  name, its columns, its primary-key column and its index of columns by property name,
  which are the fields here.
\<close>

record ModelMetadata =
  name :: string
  tableName :: string
  columns :: "ColumnMetadata list"
  primaryKeyColumn :: "ColumnMetadata option"
  columnsByPropertyName :: "string \<Rightarrow> ColumnMetadata option"

subsection \<open>The projection list\<close>

text \<open>
  \<^verbatim>\<open>SqlHelper._getColumnsToSelect\<close>. The source appends the primary key to the array the
  caller passed, so the model returns, beside the SQL text (or the \<open>TypeError\<close> of a
  property name the index does not know), the content of the caller's array after the
  call; \<open>None\<close> when the caller passed none. \<open>selectColumns\<close> is the loop over the
  entries of the array.
\<close>

fun selectColumns :: "ModelMetadata \<Rightarrow> nat \<Rightarrow> string list \<Rightarrow> string \<Rightarrow> error + string" where
  \<open>selectColumns m index [] q = Inr q\<close>
| \<open>selectColumns m index (p # ps) q =
     (case columnsByPropertyName m p of
        None \<Rightarrow> Inl TypeError
      | Some column \<Rightarrow>
          let q1 = (if index > 0 then q @ '','' else q);
              q2 = (if ColumnMetadata.name column \<noteq> p
                    then q1 @ ''"'' @ ColumnMetadata.name column @ ''" AS "'' @ p @ ''"''
                    else q1 @ ''"'' @ p @ ''"'')
          in selectColumns m (index + 1) ps q2)\<close>

definition getColumnsToSelect ::
  "ModelMetadata \<Rightarrow> string list option \<Rightarrow> (error + string) \<times> string list option" where
  "getColumnsToSelect m select =
     (case select of
        Some sel \<Rightarrow>
          let sel1 =
                (case primaryKeyColumn m of
                   Some pk \<Rightarrow>
                     if propertyName pk \<notin> set sel then sel @ [propertyName pk] else sel
                 | None \<Rightarrow> sel)
          in (selectColumns m 0 sel1 [], Some sel1)
      | None \<Rightarrow>
          (selectColumns m 0
             (map propertyName (filter (\<lambda>column. \<not> truthy (collection column)) (columns m)))
             [],
           None))"

subsection \<open>Insert\<close>

text \<open>
  What the insert builder takes from its environment: the instant \<^verbatim>\<open>new Date()\<close> reads,
  and \<^verbatim>\<open>JSON.stringify\<close>.
\<close>

record Runtime =
  now :: int
  stringify :: "jsval \<Rightarrow> string"

type_synonym entity = "(string \<times> jsval) list"

text \<open>\<^verbatim>\<open>entity[key]\<close> and \<^verbatim>\<open>entity[key] = v\<close>.\<close>

definition entity_get :: "entity \<Rightarrow> string \<Rightarrow> jsval" where
  "entity_get e k = (case lookup e k of None \<Rightarrow> JUndefined | Some v \<Rightarrow> v)"

fun entity_set :: "entity \<Rightarrow> string \<Rightarrow> jsval \<Rightarrow> entity" where
  "entity_set [] k v = [(k, v)]"
| "entity_set ((k', v') # es) k v =
     (if k' = k then (k, v) # es else (k', v') # entity_set es k v)"

text \<open>The default of a column, as the first loop of the insert builder computes it.\<close>

definition defaultValue :: "Runtime \<Rightarrow> ColumnMetadata \<Rightarrow> jsval" where
  "defaultValue rt column =
     (case defaultsTo column of
        DefaultFunction r \<Rightarrow> r
      | DefaultValue v \<Rightarrow>
          if v \<noteq> JUndefined then v
          else if createDate column then JDate (now rt)
          else if updateDate column then JDate (now rt)
          else JUndefined)"

text \<open>
  The inner loop over the rows, for one column: each row takes the default when it has no
  value; a row still without a value fails a required column. The flag is
  \<^verbatim>\<open>includePropertyName\<close>.
\<close>

fun defaultEntities ::
  "ModelMetadata \<Rightarrow> ColumnMetadata \<Rightarrow> jsval \<Rightarrow> entity list \<Rightarrow> error + (bool \<times> entity list)" where
  "defaultEntities m column dv [] = Inr (False, [])"
| "defaultEntities m column dv (entity # rest) =
     (let entity1 =
            (if dv \<noteq> JUndefined \<and> entity_get entity (propertyName column) = JUndefined
             then entity_set entity (propertyName column) dv else entity)
      in
        if entity_get entity1 (propertyName column) = JUndefined \<and> required column then
          Inl (MissingRequiredField (ModelMetadata.name m) (propertyName column))
        else
          (case defaultEntities m column dv rest of
             Inl e \<Rightarrow> Inl e
           | Inr (includePropertyName, rest1) \<Rightarrow>
               Inr (entity_get entity1 (propertyName column) \<noteq> JUndefined \<or> includePropertyName,
                    entity1 # rest1)))"

text \<open>The outer loop over the columns: the columns to insert and the rows with defaults.\<close>

fun columnsToInsert ::
  "Runtime \<Rightarrow> ModelMetadata \<Rightarrow> ColumnMetadata list \<Rightarrow> entity list
     \<Rightarrow> error + (ColumnMetadata list \<times> entity list)" where
  "columnsToInsert rt m [] entities = Inr ([], entities)"
| "columnsToInsert rt m (column # rest) entities =
     (if truthy (collection column) then columnsToInsert rt m rest entities
      else
        (case defaultEntities m column (defaultValue rt column) entities of
           Inl e \<Rightarrow> Inl e
         | Inr (includePropertyName, entities1) \<Rightarrow>
             (case columnsToInsert rt m rest entities1 of
                Inl e \<Rightarrow> Inl e
              | Inr (cs, entities2) \<Rightarrow>
                  Inr (if includePropertyName then column # cs else cs, entities2))))"

text \<open>
  The value of one cell: \<^verbatim>\<open>NULL\<close>, or a placeholder for the parameter bound (the primary
  key of a related object, the serialised array of a json column, or the value itself).
  A repository is given by the model it holds.
\<close>

fun isNil :: "jsval \<Rightarrow> bool" where
  "isNil JUndefined = True"
| "isNil JNull = True"
| "isNil v = False"

fun isArray :: "jsval \<Rightarrow> bool" where
  "isArray (JArr vs) = True"
| "isArray v = False"

definition insertValue ::
  "Runtime \<Rightarrow> (string \<Rightarrow> ModelMetadata option) \<Rightarrow> ModelMetadata \<Rightarrow> ColumnMetadata \<Rightarrow> entity
     \<Rightarrow> jsval list \<Rightarrow> error + (string \<times> jsval list)" where
  "insertValue rt repositoriesByModelNameLowered m column entity ps =
     (let entityValue = entity_get entity (propertyName column) in
        if isNil entityValue then Inr (''NULL'', ps)
        else
          let isJsonArray = (ColumnMetadata.type column = Some ''json'' \<and> isArray entityValue);
              bound =
                (if truthy (ColumnMetadata.model column) \<and> isObject entityValue then
                   (case repositoriesByModelNameLowered
                           (toLowerCase (the (ColumnMetadata.model column))) of
                      None \<Rightarrow>
                        Inl (UnknownRelatedModelOnInsert (the (ColumnMetadata.model column))
                               (propertyName column) (ModelMetadata.name m))
                    | Some relationSchema \<Rightarrow>
                        (case primaryKeyColumn relationSchema of
                           None \<Rightarrow>
                             Inl (MissingRelatedPrimaryKeyColumn
                                    (the (ColumnMetadata.model column)) (ModelMetadata.name m)
                                    (propertyName column))
                         | Some relationPrimaryKeyColumn \<Rightarrow>
                             let primaryKeyValue =
                                   get_prop entityValue (propertyName relationPrimaryKeyColumn)
                             in
                               if isNil primaryKeyValue then
                                 Inl (UndefinedPrimaryKeyValue (propertyName column)
                                        (ModelMetadata.name m))
                               else Inr (ps @ [primaryKeyValue])))
                 else if isJsonArray then Inr (ps @ [JStr (stringify rt entityValue)])
                 else Inr (ps @ [entityValue]))
          in
            (case bound of
               Inl e \<Rightarrow> Inl e
             | Inr ps1 \<Rightarrow>
                 Inr (placeholder ps1 @ (if isJsonArray then ''::jsonb'' else []), ps1)))"

text \<open>The cells of one column, row after row, and the cells of all columns.\<close>

fun insertColumnValues ::
  "Runtime \<Rightarrow> (string \<Rightarrow> ModelMetadata option) \<Rightarrow> ModelMetadata \<Rightarrow> ColumnMetadata
     \<Rightarrow> entity list \<Rightarrow> jsval list \<Rightarrow> error + (string list \<times> jsval list)" where
  "insertColumnValues rt repos m column [] ps = Inr ([], ps)"
| "insertColumnValues rt repos m column (entity # rest) ps =
     (case insertValue rt repos m column entity ps of
        Inl e \<Rightarrow> Inl e
      | Inr (v, ps1) \<Rightarrow>
          (case insertColumnValues rt repos m column rest ps1 of
             Inl e \<Rightarrow> Inl e
           | Inr (vs, ps2) \<Rightarrow> Inr (v # vs, ps2)))"

fun insertValues ::
  "Runtime \<Rightarrow> (string \<Rightarrow> ModelMetadata option) \<Rightarrow> ModelMetadata \<Rightarrow> ColumnMetadata list
     \<Rightarrow> entity list \<Rightarrow> jsval list \<Rightarrow> error + (string list list \<times> jsval list)" where
  "insertValues rt repos m [] entities ps = Inr ([], ps)"
| "insertValues rt repos m (column # rest) entities ps =
     (case insertColumnValues rt repos m column entities ps of
        Inl e \<Rightarrow> Inl e
      | Inr (vs, ps1) \<Rightarrow>
          (case insertValues rt repos m rest entities ps1 of
             Inl e \<Rightarrow> Inl e
           | Inr (vss, ps2) \<Rightarrow> Inr (vs # vss, ps2)))"

text \<open>
  \<^verbatim>\<open>SqlHelper.getInsertQueryAndParams\<close>. \<open>values\<close> is one row or an array of rows. The
  builder writes the defaults into the caller's rows and may extend the caller's
  \<^verbatim>\<open>returnSelect\<close>; the model returns the statement only.
\<close>

datatype insert_values = OneEntity entity | ManyEntities "entity list"

fun entitiesToInsert :: "insert_values \<Rightarrow> entity list" where
  "entitiesToInsert (OneEntity e) = [e]"
| "entitiesToInsert (ManyEntities es) = es"

definition getInsertQueryAndParams ::
  "Runtime \<Rightarrow> (string \<Rightarrow> ModelMetadata option) \<Rightarrow> ModelMetadata \<Rightarrow> insert_values \<Rightarrow> bool
     \<Rightarrow> string list option \<Rightarrow> error + QueryAndParams" where
  \<open>getInsertQueryAndParams rt repos m vals returnRecords returnSelect =
     (case columnsToInsert rt m (columns m) (entitiesToInsert vals) of
        Inl e \<Rightarrow> Inl e
      | Inr (cs, entities) \<Rightarrow>
          (case insertValues rt repos m cs entities [] of
             Inl e \<Rightarrow> Inl e
           | Inr (columnValues, ps) \<Rightarrow>
               let valueCollections =
                     map (\<lambda>entityIndex. map (\<lambda>vs. vs ! entityIndex) columnValues)
                       [0..<length entities];
                   query1 =
                     ''INSERT INTO "'' @ ModelMetadata.tableName m @ ''" (''
                       @ join '','' (map (\<lambda>column. ''"'' @ ColumnMetadata.name column @ ''"'') cs)
                       @ '') VALUES ''
                       @ join '','' (map (\<lambda>valueCollection. ''('' @ join '','' valueCollection @ '')'')
                                      valueCollections)
               in
                 if returnRecords then
                   (case fst (getColumnsToSelect m returnSelect) of
                      Inl e \<Rightarrow> Inl e
                    | Inr selected \<Rightarrow>
                        Inr \<lparr>query = query1 @ '' RETURNING '' @ selected, params = ps\<rparr>)
                 else Inr \<lparr>query = query1, params = ps\<rparr>))\<close>

section \<open>Dispatch of the where compiler\<close>

text \<open>
  The case labels of the \<^verbatim>\<open>switch\<close> of \<^verbatim>\<open>_buildWhere\<close>, and those of the \<^verbatim>\<open>switch\<close> of
  \<^verbatim>\<open>_buildComparisonOperatorStatement\<close>.
\<close>

definition whereCases :: "string list" where
  "whereCases = [''!'', ''not'', ''or'', ''contains'', ''startsWith'', ''endsWith'', ''like'']"

definition comparisonCases :: "string list" where
  "comparisonCases = [''<'', ''<='', ''>'', ''>='']"

lemma switchKey_and [simp]: "switchKey (Some ''and'') pn = Some ''and''"
  by (simp add: switchKey_def)

lemma switchKey_Some: "c \<noteq> [] \<Longrightarrow> switchKey (Some c) pn = Some c"
  by (simp add: switchKey_def)

lemma whereCases_and [simp]:
  "Some ''and'' \<notin> Some ` set whereCases" "None \<notin> Some ` set whereCases"
  by (simp_all add: whereCases_def)

lemma hydratedValue_None [simp]: "hydratedValue S schema None v = Inr None"
  by (simp add: hydratedValue_def)

lemma buildWhere_negation:
  "switchKey cmp pn = Some ''!'' \<or> switchKey cmp pn = Some ''not'' \<Longrightarrow>
   buildWhere S schema pn cmp neg v ps =
     (if pn = Some ''!'' \<or> pn = Some ''not'' then Inl RangeError
      else buildWhere S schema pn None True v ps)"
  by (subst buildWhere.simps) (simp add: Let_def)

lemma buildWhere_or:
  "switchKey cmp pn = Some ''or'' \<Longrightarrow>
   buildWhere S schema pn cmp neg v ps = buildOrOperatorStatement S schema neg v ps"
  by (subst buildWhere.simps) (simp add: Let_def)

lemma buildWhere_object:
  "switchKey cmp pn \<notin> Some ` set whereCases \<Longrightarrow>
   hydratedValue S schema pn (JObj es) = Inr None \<Longrightarrow>
   buildWhere S schema pn cmp neg (JObj es) ps =
     (case buildAndValues S schema pn neg es ps of
        Inl e \<Rightarrow> Inl e
      | Inr (andValues, ps1) \<Rightarrow> Inr (join '' AND '' andValues, ps1))"
  by (subst buildWhere.simps) (simp add: Let_def whereCases_def)

lemma buildEach_single:
  "buildEach S schema pn neg [x] ps =
     (case buildWhere S schema pn None neg x ps of
        Inl e \<Rightarrow> Inl e
      | Inr (c, ps1) \<Rightarrow> Inr ([c], ps1))"
  by (simp split: sum.splits prod.splits)

lemma buildEach_pair:
  "buildEach S schema pn neg [x, y] ps =
     (case buildWhere S schema pn None neg x ps of
        Inl e \<Rightarrow> Inl e
      | Inr (c, ps1) \<Rightarrow>
          (case buildWhere S schema pn None neg y ps1 of
             Inl e \<Rightarrow> Inl e
           | Inr (d, ps2) \<Rightarrow> Inr ([c, d], ps2)))"
  by (simp split: sum.splits prod.splits)

section \<open>The models of the repository's tests\<close>

text \<open>
  The product and store models the tests of the repository register, as the schemas the
  where compiler reads.
\<close>

definition productSchema :: ModelSchema where
  "productSchema =
     \<lparr>globalId = ''product'', ModelSchema.tableName = ''products'',
      attributes =
        [(''id'', \<lparr>columnName = None, attribute.type = Some ''integer'', attribute.model = None,
                   primaryKey = True, attribute.collection = None\<rparr>),
         (''name'', \<lparr>columnName = None, attribute.type = Some ''string'', attribute.model = None,
                     primaryKey = False, attribute.collection = None\<rparr>),
         (''aliases'', \<lparr>columnName = Some ''alias_names'', attribute.type = Some ''array'',
                        attribute.model = None, primaryKey = False,
                        attribute.collection = None\<rparr>),
         (''store'', \<lparr>columnName = Some ''store_id'', attribute.type = None,
                      attribute.model = Some ''Store'', primaryKey = False,
                      attribute.collection = None\<rparr>)]\<rparr>"

definition storeSchema :: ModelSchema where
  "storeSchema =
     \<lparr>globalId = ''store'', ModelSchema.tableName = ''stores'',
      attributes =
        [(''id'', \<lparr>columnName = None, attribute.type = Some ''integer'', attribute.model = None,
                   primaryKey = True, attribute.collection = None\<rparr>),
         (''name'', \<lparr>columnName = None, attribute.type = Some ''string'', attribute.model = None,
                     primaryKey = False, attribute.collection = None\<rparr>)]\<rparr>"

definition exampleSchemas :: ModelSchemasByGlobalId where
  "exampleSchemas n =
     (if n = ''product'' then Some productSchema
      else if n = ''store'' then Some storeSchema
      else None)"

lemma example_name_equals:
  \<open>buildWhere exampleSchemas productSchema None None False
     (JObj [(''name'', JStr ''x'')]) [] = Inr (''"name"=$1'', [JStr ''x''])\<close>
  by code_simp

section \<open>Delete without constraints\<close>

text \<open>
  Claim C6. A delete compiled from the empty where object, with no records returned, is
  exactly \<^verbatim>\<open>DELETE FROM "table"\<close> with no parameter: the where statement of the empty
  object is the empty text, so no \<^verbatim>\<open>WHERE\<close> keyword is emitted, whatever parameters were
  bound before.
\<close>

theorem delete_empty_where:
  \<open>buildWhereStatement S schema (JObj []) ps = Inr (Some [], ps) \<and>
   getDeleteQueryAndParams S schema (JObj []) False returnSelect =
     Inr \<lparr>query = ''DELETE FROM "'' @ ModelSchema.tableName schema @ ''"'', params = []\<rparr>\<close>
proof -
  have w: "buildWhere S schema None (Some ''and'') False (JObj []) qs = Inr ([], qs)" for qs
    by (simp add: buildWhere_object)
  have s: "buildWhereStatement S schema (JObj []) qs = Inr (Some [], qs)" for qs
    by (simp add: buildWhereStatement_def w)
  show ?thesis
    by (simp add: s getDeleteQueryAndParams_def)
qed

theorem delete_empty_where_witness:
  \<open>getDeleteQueryAndParams exampleSchemas productSchema (JObj []) False None =
     Inr \<lparr>query = ''DELETE FROM "products"'', params = []\<rparr>\<close>
  using delete_empty_where [of exampleSchemas productSchema "[]" None]
  by (simp add: productSchema_def)

section \<open>The or statement\<close>

text \<open>
  Claim C8, as the code has it. An \<^verbatim>\<open>or\<close> whose value is the one-element array \<open>[A]\<close>
  compiles \<open>A\<close> once, with no property name, the same negation flag and the same
  parameters, and returns that fragment inside one pair of parentheses: the or statement
  wraps every clause before it looks at their number, and adds no join and no second pair
  of parentheses. An error of \<open>A\<close> is the error of the whole.
\<close>

theorem or_single_element:
  "buildWhere S schema pn (Some ''or'') neg (JArr [A]) ps =
     (case buildWhere S schema None None neg A ps of
        Inl e \<Rightarrow> Inl e
      | Inr (a, ps1) \<Rightarrow> Inr (''('' @ a @ '')'', ps1))"
  by (simp add: buildWhere_or switchKey_Some buildEach_single combine_def
      split: sum.splits prod.splits)

theorem or_single_element_witness:
  \<open>buildWhere exampleSchemas productSchema None (Some ''or'') False
     (JArr [JObj [(''name'', JStr ''x'')]]) [] = Inr (''("name"=$1)'', [JStr ''x''])\<close>
  using or_single_element
    [of exampleSchemas productSchema None False "JObj [(''name'', JStr ''x'')]" "[]"]
  by (simp add: example_name_equals)

text \<open>
  The claim as the specification states it (the element unwrapped, no surrounding
  parentheses) fails on \<^verbatim>\<open>{or: [{name: 'x'}]}\<close>: the or statement returns
  \<^verbatim>\<open>("name"=$1)\<close>, the element compiled alone is \<^verbatim>\<open>"name"=$1\<close>.
\<close>

theorem or_single_element_counterexample:
  \<open>buildWhere exampleSchemas productSchema None (Some ''or'') False
     (JArr [JObj [(''name'', JStr ''x'')]]) [] = Inr (''("name"=$1)'', [JStr ''x'']) \<and>
   buildWhere exampleSchemas productSchema None None False
     (JObj [(''name'', JStr ''x'')]) [] = Inr (''"name"=$1'', [JStr ''x'']) \<and>
   buildWhere exampleSchemas productSchema None (Some ''or'') False
     (JArr [JObj [(''name'', JStr ''x'')]]) [] \<noteq>
   buildWhere exampleSchemas productSchema None None False
     (JObj [(''name'', JStr ''x'')]) []\<close>
  by code_simp

section \<open>Negation of an or\<close>

lemma isComparer_simps [simp]:
  "isComparer ''or''" "isComparer ''and''" "isComparer ''!''" "isComparer ''not''"
  by (simp_all add: isComparer_def)

lemma negated_or_pair:
  "buildWhere S schema None None True (JObj [(''or'', JArr [A, B])]) ps =
     (case buildWhere S schema None None True A ps of
        Inl e \<Rightarrow> Inl e
      | Inr (a, ps1) \<Rightarrow>
          (case buildWhere S schema None None True B ps1 of
             Inl e \<Rightarrow> Inl e
           | Inr (b, ps2) \<Rightarrow> Inr (''('' @ a @ '') AND ('' @ b @ '')'', ps2)))"
  by (simp add: buildWhere_object buildWhere_or switchKey_Some buildEach_pair combine_def
      split: sum.splits prod.splits)

text \<open>
  A where object of two comparer keys, as \<^verbatim>\<open>_buildWhereStatement\<close> hands it to the
  compiler: the two values are compiled in order and joined with \<^verbatim>\<open>AND\<close>, with no
  parentheses.
\<close>

lemma comparer_pair:
  "isComparer k \<Longrightarrow> isComparer l \<Longrightarrow>
   buildWhere S schema None (Some ''and'') neg (JObj [(k, A), (l, B)]) ps =
     (case buildWhere S schema None (Some k) neg A ps of
        Inl e \<Rightarrow> Inl e
      | Inr (a, ps1) \<Rightarrow>
          (case buildWhere S schema None (Some l) neg B ps1 of
             Inl e \<Rightarrow> Inl e
           | Inr (b, ps2) \<Rightarrow> Inr (a @ '' AND '' @ b, ps2)))"
  by (simp add: buildWhere_object split: sum.splits prod.splits)

text \<open>
  Claim C2, as the code has it. The where node \<^verbatim>\<open>not({or: [A, B]})\<close> (also written with
  \<^verbatim>\<open>!\<close>, and whatever the negation flag it is reached with) compiles \<^verbatim>\<open>not(A)\<close> and then
  \<^verbatim>\<open>not(B)\<close> on the same parameters, as the conjunction \<^verbatim>\<open>{not: A, '!': B}\<close> of the two
  negations does: the parameters are the same, an error of either term is the error of
  both, and both join the two terms with \<^verbatim>\<open>AND\<close>. The fragments differ in the
  parentheses only: the or statement wraps each term in one pair, the conjunction wraps
  none. The non-negated \<^verbatim>\<open>or\<close> joins the wrapped terms with \<^verbatim>\<open>OR\<close> and parenthesises the
  whole.
\<close>

theorem de_morgan_or:
  \<open>buildWhere S schema None (Some ''not'') neg (JObj [(''or'', JArr [A, B])]) ps =
     (case buildWhere S schema None (Some ''not'') False A ps of
        Inl e \<Rightarrow> Inl e
      | Inr (a, ps1) \<Rightarrow>
          (case buildWhere S schema None (Some ''not'') False B ps1 of
             Inl e \<Rightarrow> Inl e
           | Inr (b, ps2) \<Rightarrow> Inr (''('' @ a @ '') AND ('' @ b @ '')'', ps2))) \<and>
   buildWhere S schema None (Some ''!'') neg (JObj [(''or'', JArr [A, B])]) ps =
     buildWhere S schema None (Some ''not'') neg (JObj [(''or'', JArr [A, B])]) ps \<and>
   buildWhere S schema None (Some ''and'') False (JObj [(''not'', A), (''!'', B)]) ps =
     (case buildWhere S schema None (Some ''not'') False A ps of
        Inl e \<Rightarrow> Inl e
      | Inr (a, ps1) \<Rightarrow>
          (case buildWhere S schema None (Some ''not'') False B ps1 of
             Inl e \<Rightarrow> Inl e
           | Inr (b, ps2) \<Rightarrow> Inr (a @ '' AND '' @ b, ps2))) \<and>
   buildWhere S schema None (Some ''or'') False (JArr [A, B]) ps =
     (case buildWhere S schema None None False A ps of
        Inl e \<Rightarrow> Inl e
      | Inr (a, ps1) \<Rightarrow>
          (case buildWhere S schema None None False B ps1 of
             Inl e \<Rightarrow> Inl e
           | Inr (b, ps2) \<Rightarrow> Inr (''(('' @ a @ '') OR ('' @ b @ ''))'', ps2)))\<close>
proof -
  have n: "buildWhere S schema None (Some k) f v qs = buildWhere S schema None None True v qs"
    if "k = ''not'' \<or> k = ''!''" for k f v qs
    using that by (auto simp: buildWhere_negation switchKey_Some)
  show ?thesis
    by (simp add: n negated_or_pair comparer_pair buildWhere_or switchKey_Some
        buildEach_pair combine_def split: sum.splits prod.splits)
qed

theorem de_morgan_or_witness:
  \<open>buildWhere exampleSchemas productSchema None (Some ''not'') False
     (JObj [(''or'', JArr [JObj [(''name'', JStr ''x'')], JObj [(''id'', JNum 3)]])]) [] =
     Inr (''("name"<>$1) AND ("id"<>$2)'', [JStr ''x'', JNum 3]) \<and>
   buildWhere exampleSchemas productSchema None (Some ''and'') False
     (JObj [(''not'', JObj [(''name'', JStr ''x'')]), (''!'', JObj [(''id'', JNum 3)])]) [] =
     Inr (''"name"<>$1 AND "id"<>$2'', [JStr ''x'', JNum 3]) \<and>
   buildWhere exampleSchemas productSchema None (Some ''or'') False
     (JArr [JObj [(''name'', JStr ''x'')], JObj [(''id'', JNum 3)]]) [] =
     Inr (''(("name"=$1) OR ("id"=$2))'', [JStr ''x'', JNum 3])\<close>
proof -
  have a: \<open>buildWhere exampleSchemas productSchema None (Some ''not'') False
      (JObj [(''name'', JStr ''x'')]) [] = Inr (''"name"<>$1'', [JStr ''x''])\<close>
    by code_simp
  have b: \<open>buildWhere exampleSchemas productSchema None (Some ''not'') False
      (JObj [(''id'', JNum 3)]) [JStr ''x''] = Inr (''"id"<>$2'', [JStr ''x'', JNum 3])\<close>
    by code_simp
  have c: \<open>buildWhere exampleSchemas productSchema None None False
      (JObj [(''id'', JNum 3)]) [JStr ''x''] = Inr (''"id"=$2'', [JStr ''x'', JNum 3])\<close>
    by code_simp
  show ?thesis
    using de_morgan_or [of exampleSchemas productSchema False "JObj [(''name'', JStr ''x'')]"
        "JObj [(''id'', JNum 3)]" "[]"]
    by (simp add: a b c example_name_equals)
qed

text \<open>
  The claim as the specification states it (the same fragment as the conjunction of the
  negations) fails on \<^verbatim>\<open>A = {name: 'x'}\<close> and \<^verbatim>\<open>B = {id: 3}\<close>: the negated or gives
  \<^verbatim>\<open>("name"<>$1) AND ("id"<>$2)\<close>, the conjunction \<^verbatim>\<open>{not: A, '!': B}\<close> gives
  \<^verbatim>\<open>"name"<>$1 AND "id"<>$2\<close>, and the conjunction written with the key \<^verbatim>\<open>and\<close> compiles
  to no fragment at all.
\<close>

theorem de_morgan_or_counterexample:
  \<open>buildWhere exampleSchemas productSchema None (Some ''and'') False
     (JObj [(''not'', JObj [(''or'',
        JArr [JObj [(''name'', JStr ''x'')], JObj [(''id'', JNum 3)]])])]) [] =
     Inr (''("name"<>$1) AND ("id"<>$2)'', [JStr ''x'', JNum 3]) \<and>
   buildWhere exampleSchemas productSchema None (Some ''and'') False
     (JObj [(''not'', JObj [(''name'', JStr ''x'')]), (''!'', JObj [(''id'', JNum 3)])]) [] =
     Inr (''"name"<>$1 AND "id"<>$2'', [JStr ''x'', JNum 3]) \<and>
   buildWhere exampleSchemas productSchema None (Some ''and'') False
     (JObj [(''and'', JArr [JObj [(''not'', JObj [(''name'', JStr ''x'')])],
                            JObj [(''not'', JObj [(''id'', JNum 3)])]])]) [] =
     Inl PropertyNameNotDefined \<and>
   buildWhere exampleSchemas productSchema None (Some ''and'') False
     (JObj [(''not'', JObj [(''or'',
        JArr [JObj [(''name'', JStr ''x'')], JObj [(''id'', JNum 3)]])])]) [] \<noteq>
   buildWhere exampleSchemas productSchema None (Some ''and'') False
     (JObj [(''not'', JObj [(''name'', JStr ''x'')]), (''!'', JObj [(''id'', JNum 3)])]) []\<close>
  by code_simp

section \<open>The empty array\<close>

lemma not_comparer_not_case: "\<not> isComparer p \<Longrightarrow> Some p \<notin> Some ` set whereCases"
  by (auto simp: isComparer_def whereCases_def)

lemma hydratedValue_plain:
  "lookup (attributes schema) p = Some a \<Longrightarrow> \<not> truthy (attribute.model a) \<Longrightarrow>
   hydratedValue S schema (Some p) v = Inr None"
  by (simp add: hydratedValue_def)

lemma buildWhere_empty_array:
  \<open>switchKey cmp pn \<notin> Some ` set whereCases \<Longrightarrow>
   hydratedValue S schema pn (JArr []) = Inr None \<Longrightarrow>
   buildWhere S schema pn cmp neg (JArr []) ps =
     (if isArrayType (propertyOrComparerType schema pn cmp) then
        (case getColumnName schema pn of
           Inl e \<Rightarrow> Inl e
         | Inr c \<Rightarrow>
             Inr (''"'' @ c @ ''"'' @ (if neg then ''<>'' else ''='')
                    @ [CHR 0x27] @ ''{}'' @ [CHR 0x27], ps))
      else Inr (if neg then ''1=1'' else ''1<>1'', ps))\<close>
  by (subst buildWhere.simps) (simp add: Let_def whereCases_def)

text \<open>
  Claim C3. Let \<open>p\<close> be a property of the schema (a key that is no comparer) whose value
  in the where tree is the empty array, reached with the negation flag \<open>neg\<close>, and let
  the relation dereference not apply (the attribute names no related model, or the
  related schema is registered and the array does not carry its primary key). If the
  declared type of the attribute is an array type, the fragment is the column compared
  with the empty-array literal, \<^verbatim>\<open>=\<close> when not negated and \<^verbatim>\<open><>\<close> when negated; otherwise it
  is \<^verbatim>\<open>1<>1\<close> when not negated and \<^verbatim>\<open>1=1\<close> when negated. No parameter is bound either way.
\<close>

theorem empty_array_value:
  assumes "lookup (attributes schema) p = Some a"
    and "p \<noteq> []"
    and "\<not> isComparer p"
    and "hydratedValue S schema (Some p) (JArr []) = Inr None"
  shows
    \<open>buildWhere S schema (Some p) None neg (JArr []) ps =
       Inr (if isArrayType (loweredType (Some a))
            then ''"'' @ (if truthy (columnName a) then the (columnName a) else p) @ ''"''
                   @ (if neg then ''<>'' else ''='') @ [CHR 0x27] @ ''{}'' @ [CHR 0x27]
            else if neg then ''1=1'' else ''1<>1'',
            ps)\<close>
proof -
  have k: "switchKey None (Some p) \<notin> Some ` set whereCases"
    using assms(3) by (simp add: not_comparer_not_case)
  have t: "propertyOrComparerType schema (Some p) None = loweredType (Some a)"
    using assms(1,2) by (simp add: propertyOrComparerType_def attributeOf_def)
  have c: "getColumnName schema (Some p) =
      Inr (if truthy (columnName a) then the (columnName a) else p)"
    using assms(1,2) by (simp add: getColumnName_def)
  show ?thesis
    by (simp add: buildWhere_empty_array [OF k assms(4)] t c)
qed

theorem empty_array_value_witness:
  \<open>buildWhere exampleSchemas productSchema (Some ''aliases'') None False (JArr []) [] =
     Inr (''"alias_names"='' @ [CHR 0x27] @ ''{}'' @ [CHR 0x27], []) \<and>
   buildWhere exampleSchemas productSchema (Some ''aliases'') None True (JArr []) [] =
     Inr (''"alias_names"<>'' @ [CHR 0x27] @ ''{}'' @ [CHR 0x27], []) \<and>
   buildWhere exampleSchemas productSchema (Some ''name'') None False (JArr []) [] =
     Inr (''1<>1'', []) \<and>
   buildWhere exampleSchemas productSchema (Some ''name'') None True (JArr []) [] =
     Inr (''1=1'', [])\<close>
proof -
  have a: "lookup (attributes productSchema) ''aliases'' =
      Some \<lparr>columnName = Some ''alias_names'', attribute.type = Some ''array'',
            attribute.model = None, primaryKey = False, attribute.collection = None\<rparr>"
    by (simp add: productSchema_def)
  have n: "lookup (attributes productSchema) ''name'' =
      Some \<lparr>columnName = None, attribute.type = Some ''string'',
            attribute.model = None, primaryKey = False, attribute.collection = None\<rparr>"
    by (simp add: productSchema_def)
  have ca: "\<not> isComparer ''aliases''" and cn: "\<not> isComparer ''name''"
    by (simp_all add: isComparer_def)
  have ha: "hydratedValue exampleSchemas productSchema (Some ''aliases'') (JArr []) = Inr None"
    and hn: "hydratedValue exampleSchemas productSchema (Some ''name'') (JArr []) = Inr None"
    by (simp_all add: hydratedValue_plain [OF a] hydratedValue_plain [OF n])
  have la: "toLowerCase ''array'' = ''array''" and ln: "toLowerCase ''string'' = ''string''"
    by code_simp+
  show ?thesis
    using empty_array_value [OF a _ ca ha, of False "[]"]
      empty_array_value [OF a _ ca ha, of True "[]"]
      empty_array_value [OF n _ cn hn, of False "[]"]
      empty_array_value [OF n _ cn hn, of True "[]"]
    by (simp add: loweredType_def isArrayType_def la ln)
qed

section \<open>The comparer \<^verbatim>\<open>and\<close>\<close>

lemma buildEach_null_no_property:
  "buildEach S schema None neg (filter isNull xs) ps =
     (if filter isNull xs = [] then Inr ([], ps) else Inl PropertyNameNotDefined)"
proof (cases "filter isNull xs")
  case Nil
  then show ?thesis by simp
next
  case (Cons y ys)
  then have "y \<in> set (filter isNull xs)" by simp
  then have y: "y = JNull" by (auto elim: isNull.elims)
  have "buildWhere S schema None None neg JNull ps = Inl PropertyNameNotDefined"
    by (subst buildWhere.simps)
      (simp add: Let_def buildComparisonOperatorStatement_def getColumnName_def)
  with Cons y show ?thesis by simp
qed

lemma and_like_no_comparer:
  assumes "lookup (attributes schema) ''and'' = None"
  shows "buildWhere S schema None (Some ''and'') neg v ps = buildWhere S schema None None neg v ps"
proof -
  have t: "propertyOrComparerType schema None (Some ''and'') =
      propertyOrComparerType schema None None"
    using assms by (simp add: propertyOrComparerType_def attributeOf_def)
  have c: "buildComparisonOperatorStatement schema None (Some ''and'') neg w ps =
      buildComparisonOperatorStatement schema None None neg w ps" for w
    by (simp add: buildComparisonOperatorStatement_def getColumnName_def)
  note unfold = buildWhere.simps [of S schema None "Some ''and''" neg v ps]
    buildWhere.simps [of S schema None None neg v ps]
  show ?thesis
    by (subst unfold(1), subst unfold(2), (subst t)+, cases v)
      (simp_all add: Let_def c switchKey_def getColumnName_def)
qed

text \<open>
  Claim C9. The classifier takes \<^verbatim>\<open>and\<close> for a comparer, and \<^verbatim>\<open>and\<close> is a case label neither
  of the dispatch of \<^verbatim>\<open>_buildWhere\<close> nor of the comparison statement. So a where object
  \<^verbatim>\<open>{and: [...]}\<close> goes through the default branch with \<^verbatim>\<open>and\<close> as a comparer that selects
  nothing: where the schema has no attribute called \<^verbatim>\<open>and\<close> the result is that of the
  same value with no comparer at all; an array of two sub-expressions or more fails on
  the missing property name instead of being joined with \<^verbatim>\<open>AND\<close>; and the empty array
  is decided by the lookup of an attribute called \<^verbatim>\<open>and\<close>.
\<close>

theorem and_is_not_dispatched:
  "isComparer ''and'' \<and>
   ''and'' \<notin> set whereCases \<and> ''and'' \<notin> set comparisonCases \<and>
   (lookup (attributes schema) ''and'' = None \<longrightarrow>
      buildWhere S schema None (Some ''and'') neg v ps =
        buildWhere S schema None None neg v ps) \<and>
   buildWhere S schema None (Some ''and'') neg (JArr (A # B # rest)) ps =
     Inl PropertyNameNotDefined \<and>
   buildWhere S schema None (Some ''and'') neg (JArr []) ps =
     (if isArrayType (loweredType (lookup (attributes schema) ''and''))
      then Inl PropertyNameNotDefined
      else Inr (if neg then ''1=1'' else ''1<>1'', ps))"
proof -
  have e: "buildWhere S schema None (Some ''and'') neg (JArr []) ps =
     (if isArrayType (loweredType (lookup (attributes schema) ''and''))
      then Inl PropertyNameNotDefined
      else Inr (if neg then ''1=1'' else ''1<>1'', ps))"
    by (simp add: buildWhere_empty_array propertyOrComparerType_def attributeOf_def
        getColumnName_def)
  let ?xs = "A # B # rest"
  have m: "buildWhere S schema None (Some ''and'') neg (JArr ?xs) ps =
      Inl PropertyNameNotDefined"
  proof (cases "filter isNull ?xs = []")
    case True
    then have f: "filter (\<lambda>item. \<not> isNull item) ?xs = ?xs"
      by (auto simp: filter_empty_conv filter_id_conv)
    have b: "buildEach S schema None neg (filter isNull ?xs) ps = Inr ([], ps)"
      using buildEach_null_no_property [of S schema neg ?xs ps] True by simp
    show ?thesis
      by (subst buildWhere.simps) (simp add: Let_def b f getColumnName_def del: filter.simps)
  next
    case False
    have b: "buildEach S schema None neg (filter isNull ?xs) ps = Inl PropertyNameNotDefined"
      using buildEach_null_no_property [of S schema neg ?xs ps] False by simp
    show ?thesis
      by (subst buildWhere.simps) (simp add: Let_def b del: filter.simps)
  qed
  show ?thesis
    using and_like_no_comparer [of schema S neg v ps]
    by (simp add: e m isComparer_def whereCases_def comparisonCases_def)
qed

theorem and_is_not_dispatched_witness:
  \<open>buildWhere exampleSchemas productSchema None (Some ''and'') False
     (JArr [JObj [(''name'', JStr ''x'')], JObj [(''id'', JNum 3)]]) [] =
     Inl PropertyNameNotDefined \<and>
   buildWhere exampleSchemas productSchema None (Some ''and'') False (JArr []) [] =
     Inr (''1<>1'', []) \<and>
   buildWhere exampleSchemas productSchema None (Some ''and'') False
     (JArr [JObj [(''name'', JStr ''x'')]]) [] =
     buildWhere exampleSchemas productSchema None None False
       (JArr [JObj [(''name'', JStr ''x'')]]) []\<close>
proof -
  have l: "lookup (attributes productSchema) ''and'' = None"
    by code_simp
  show ?thesis
    using and_is_not_dispatched [of productSchema exampleSchemas False
        "JArr [JObj [(''name'', JStr ''x'')]]" "[]"
        "JObj [(''name'', JStr ''x'')]" "JObj [(''id'', JNum 3)]" "[]"] l
    by (simp add: loweredType_def isArrayType_def)
qed

section \<open>The projection list\<close>

text \<open>
  One entry of the projection list, for the column the index holds under a property
  name, and the list for the property names of a select array.
\<close>

definition projectionItem :: "ColumnMetadata \<Rightarrow> string \<Rightarrow> string" where
  \<open>projectionItem column p =
     (if ColumnMetadata.name column \<noteq> p
      then ''"'' @ ColumnMetadata.name column @ ''" AS "'' @ p @ ''"''
      else ''"'' @ p @ ''"'')\<close>

definition projection :: "ModelMetadata \<Rightarrow> string list \<Rightarrow> string" where
  "projection m ps =
     join '','' (map (\<lambda>p. projectionItem (the (columnsByPropertyName m p)) p) ps)"

text \<open>The product model of the tests, as the metadata the builders read.\<close>

definition productColumn ::
  "string \<Rightarrow> string \<Rightarrow> string option \<Rightarrow> bool \<Rightarrow> defaultsTo_spec \<Rightarrow> string option
     \<Rightarrow> ColumnMetadata" where
  "productColumn n p t r d rel =
     \<lparr>ColumnMetadata.name = n, propertyName = p, type = t, required = r, defaultsTo = d,
      createDate = False, updateDate = False, model = rel, collection = None\<rparr>"

definition productColumns :: "ColumnMetadata list" where
  "productColumns =
     [productColumn ''id'' ''id'' (Some ''integer'') False (DefaultValue JUndefined) None,
      productColumn ''name'' ''name'' (Some ''string'') True (DefaultValue JUndefined) None,
      productColumn ''sku'' ''sku'' (Some ''string'') False (DefaultValue JUndefined) None,
      productColumn ''alias_names'' ''aliases'' (Some ''string[]'') False
        (DefaultValue (JArr [])) None,
      productColumn ''store_id'' ''store'' None False (DefaultValue JUndefined) (Some ''Store'')]"

definition productModel :: ModelMetadata where
  "productModel =
     \<lparr>ModelMetadata.name = ''Product'', tableName = ''products'', columns = productColumns,
      primaryKeyColumn = Some (hd productColumns),
      columnsByPropertyName =
        map_of (map (\<lambda>column. (propertyName column, column)) productColumns)\<rparr>"

lemma join_Cons: "join sep (x # xs) = x @ (if xs = [] then [] else sep @ join sep xs)"
  by (cases xs) simp_all

lemma selectColumns_join:
  "\<forall>p\<in>set ps. \<exists>c. columnsByPropertyName m p = Some c \<Longrightarrow>
   selectColumns m i ps q =
     Inr (q @ (if 0 < i \<and> ps \<noteq> [] then '','' else [])
            @ join '','' (map (\<lambda>p. projectionItem (the (columnsByPropertyName m p)) p) ps))"
proof (induction ps arbitrary: i q)
  case Nil
  then show ?case by simp
next
  case (Cons p ps)
  from Cons.prems obtain c where c: "columnsByPropertyName m p = Some c" by auto
  from Cons.prems have r: "\<forall>p\<in>set ps. \<exists>c. columnsByPropertyName m p = Some c" by simp
  show ?case
    by (simp add: c Cons.IH [OF r] projectionItem_def join_Cons Let_def)
qed

lemma productModel_index:
  "columnsByPropertyName productModel ''id'' = Some (productColumns ! 0)"
  "columnsByPropertyName productModel ''name'' = Some (productColumns ! 1)"
  "columnsByPropertyName productModel ''sku'' = Some (productColumns ! 2)"
  "columnsByPropertyName productModel ''aliases'' = Some (productColumns ! 3)"
  "columnsByPropertyName productModel ''store'' = Some (productColumns ! 4)"
  by (simp_all add: productModel_def productColumns_def productColumn_def)

lemma productModel_primaryKey:
  "primaryKeyColumn productModel = Some (productColumns ! 0)"
  "propertyName (productColumns ! 0) = ''id''"
  by (simp_all add: productModel_def productColumns_def productColumn_def)

text \<open>
  Claim C4. For a model with a primary-key column and an explicit select array that
  omits the primary-key property, all of whose names (the primary key included) the
  index of the model knows, the builder returns the projection of the array followed by
  the primary-key property: that property is in the list once, and last. When no select
  array is given, and the index holds every non-collection column under its property
  name, the builder returns the entries of the non-collection columns in their order,
  each with \<^verbatim>\<open>AS "propertyName"\<close> exactly when the name of the column differs from the
  property name.
\<close>

theorem columns_to_select:
  "(primaryKeyColumn m = Some pk \<and> propertyName pk \<notin> set sel \<and>
    (\<forall>p\<in>set (sel @ [propertyName pk]). \<exists>c. columnsByPropertyName m p = Some c) \<longrightarrow>
      fst (getColumnsToSelect m (Some sel)) = Inr (projection m (sel @ [propertyName pk])) \<and>
      count_list (sel @ [propertyName pk]) (propertyName pk) = 1 \<and>
      last (sel @ [propertyName pk]) = propertyName pk) \<and>
   ((\<forall>c\<in>set (columns m).
       \<not> truthy (collection c) \<longrightarrow> columnsByPropertyName m (propertyName c) = Some c) \<longrightarrow>
      fst (getColumnsToSelect m None) =
        Inr (join '','' (map (\<lambda>c. projectionItem c (propertyName c))
                           (filter (\<lambda>c. \<not> truthy (collection c)) (columns m)))))"
proof (intro conjI impI)
  assume a: "primaryKeyColumn m = Some pk \<and> propertyName pk \<notin> set sel \<and>
    (\<forall>p\<in>set (sel @ [propertyName pk]). \<exists>c. columnsByPropertyName m p = Some c)"
  then show "fst (getColumnsToSelect m (Some sel)) =
      Inr (projection m (sel @ [propertyName pk]))"
    by (simp add: getColumnsToSelect_def selectColumns_join projection_def)
  from a show "count_list (sel @ [propertyName pk]) (propertyName pk) = 1"
    by (simp add: count_list_0_iff)
  show "last (sel @ [propertyName pk]) = propertyName pk"
    by simp
next
  let ?cs = "filter (\<lambda>c. \<not> truthy (collection c)) (columns m)"
  assume i: "\<forall>c\<in>set (columns m).
      \<not> truthy (collection c) \<longrightarrow> columnsByPropertyName m (propertyName c) = Some c"
  then have k: "\<forall>p\<in>set (map propertyName ?cs). \<exists>c. columnsByPropertyName m p = Some c"
    by auto
  from i have e: "map (\<lambda>p. projectionItem (the (columnsByPropertyName m p)) p)
      (map propertyName ?cs) = map (\<lambda>c. projectionItem c (propertyName c)) ?cs"
    by (auto simp: comp_def)
  show "fst (getColumnsToSelect m None) =
      Inr (join '','' (map (\<lambda>c. projectionItem c (propertyName c)) ?cs))"
    by (simp add: getColumnsToSelect_def selectColumns_join [OF k] e del: map_map)
qed

theorem columns_to_select_witness:
  \<open>fst (getColumnsToSelect productModel (Some [''name''])) = Inr ''"name","id"'' \<and>
   fst (getColumnsToSelect productModel None) =
     Inr ''"id","name","sku","alias_names" AS "aliases","store_id" AS "store"''\<close>
proof -
  have i: "\<forall>c\<in>set (columns productModel).
      \<not> truthy (collection c) \<longrightarrow> columnsByPropertyName productModel (propertyName c) = Some c"
    by (simp add: productModel_def productColumns_def productColumn_def)
  have c: "columns productModel = productColumns"
    by (simp add: productModel_def)
  show ?thesis
    using columns_to_select [of productModel "productColumns ! 0" "[''name'']"] i
    by (simp add: projection_def productModel_index productModel_primaryKey c)
      (simp add: projectionItem_def productColumns_def productColumn_def)
qed

text \<open>
  Claim C10. Given a select array that omits the primary-key property, the builder
  leaves the caller's array one element longer: the array after the call is the array
  before it followed by the primary-key property, also when the builder fails on an
  unknown name. The array is the only state the builder returns changed.
\<close>

theorem select_array_is_extended:
  assumes "primaryKeyColumn m = Some pk" and "propertyName pk \<notin> set sel"
  shows "snd (getColumnsToSelect m (Some sel)) = Some (sel @ [propertyName pk]) \<and>
         length (sel @ [propertyName pk]) = length sel + 1"
  using assms by (simp add: getColumnsToSelect_def Let_def)

theorem select_array_is_extended_witness:
  "snd (getColumnsToSelect productModel (Some [''name''])) = Some [''name'', ''id'']"
  using select_array_is_extended [OF productModel_primaryKey(1), of "[''name'']"]
  by (simp add: productModel_primaryKey)

section \<open>Insert: required columns\<close>

text \<open>
  A row after the defaults of a list of columns have been applied to it, column after
  column, as the first loop of the insert builder does for every row.
\<close>

definition applyDefault :: "jsval \<Rightarrow> string \<Rightarrow> entity \<Rightarrow> entity" where
  "applyDefault dv p e =
     (if dv \<noteq> JUndefined \<and> entity_get e p = JUndefined then entity_set e p dv else e)"

fun withDefaults :: "Runtime \<Rightarrow> ColumnMetadata list \<Rightarrow> entity \<Rightarrow> entity" where
  "withDefaults rt [] e = e"
| "withDefaults rt (c # cs) e =
     withDefaults rt cs
       (if truthy (collection c) then e
        else applyDefault (defaultValue rt c) (propertyName c) e)"

lemma lookup_entity_set:
  "lookup (entity_set e k v) k' = (if k' = k then Some v else lookup e k')"
  by (induction e) auto

lemma entity_get_set:
  "entity_get (entity_set e k v) k' = (if k' = k then v else entity_get e k')"
  by (simp add: entity_get_def lookup_entity_set)

lemma applyDefault_keeps:
  "entity_get e k \<noteq> JUndefined \<Longrightarrow> entity_get (applyDefault dv p e) k \<noteq> JUndefined"
  by (auto simp: applyDefault_def entity_get_set)

lemma withDefaults_keeps:
  "entity_get e k \<noteq> JUndefined \<Longrightarrow> entity_get (withDefaults rt cs e) k \<noteq> JUndefined"
  by (induction cs arbitrary: e) (auto simp: applyDefault_keeps)

lemma defaultEntities_Inr:
  "defaultEntities m c dv es = Inr (inc, es') \<Longrightarrow> es' = map (applyDefault dv (propertyName c)) es"
  by (induction es arbitrary: inc es')
    (auto simp: Let_def applyDefault_def split: if_splits sum.splits)

lemma defaultEntities_Inl:
  "defaultEntities m c dv es = Inl err \<Longrightarrow>
   required c \<and> err = MissingRequiredField (ModelMetadata.name m) (propertyName c)"
  by (induction es) (auto simp: Let_def split: if_splits sum.splits)

lemma defaultEntities_missing:
  "required c \<Longrightarrow> e \<in> set es \<Longrightarrow>
   entity_get (applyDefault dv (propertyName c) e) (propertyName c) = JUndefined \<Longrightarrow>
   defaultEntities m c dv es = Inl (MissingRequiredField (ModelMetadata.name m) (propertyName c))"
proof (induction es)
  case Nil
  then show ?case by simp
next
  case (Cons x xs)
  show ?case
  proof (cases "defaultEntities m c dv (x # xs)")
    case (Inl err)
    then show ?thesis using defaultEntities_Inl by blast
  next
    case (Inr r)
    then obtain inc es' where r: "defaultEntities m c dv (x # xs) = Inr (inc, es')"
      by (cases r) auto
    have False
    proof (cases "e = x")
      case True
      with Cons.prems r show False
        by (auto simp: Let_def applyDefault_def split: if_splits sum.splits)
    next
      case False
      with Cons.prems have "e \<in> set xs" by simp
      with Cons have "defaultEntities m c dv xs =
          Inl (MissingRequiredField (ModelMetadata.name m) (propertyName c))" by simp
      with r show False
        by (auto simp: Let_def split: if_splits sum.splits)
    qed
    then show ?thesis ..
  qed
qed

lemma columnsToInsert_Inl:
  "columnsToInsert rt m cs es = Inl err \<Longrightarrow>
   \<exists>c\<in>set cs. required c \<and> err = MissingRequiredField (ModelMetadata.name m) (propertyName c)"
proof (induction cs arbitrary: es)
  case Nil
  then show ?case by simp
next
  case (Cons c cs)
  show ?case
  proof (cases "truthy (collection c)")
    case True
    with Cons show ?thesis by auto
  next
    case False
    show ?thesis
    proof (cases "defaultEntities m c (defaultValue rt c) es")
      case (Inl e)
      with Cons.prems False have "e = err" by simp
      with Inl defaultEntities_Inl show ?thesis by fastforce
    next
      case (Inr r)
      obtain inc es1 where r: "r = (inc, es1)" by (cases r)
      with Cons.prems False Inr have "columnsToInsert rt m cs es1 = Inl err"
        by (auto split: sum.splits)
      with Cons.IH show ?thesis by auto
    qed
  qed
qed

lemma columnsToInsert_missing:
  assumes "c \<in> set cs" and "\<not> truthy (collection c)" and "required c" and "e \<in> set es"
    and "entity_get (withDefaults rt cs e) (propertyName c) = JUndefined"
  shows "\<exists>err. columnsToInsert rt m cs es = Inl err"
  using assms
proof (induction cs arbitrary: es e)
  case Nil
  then show ?case by simp
next
  case (Cons d ds)
  show ?case
  proof (cases "truthy (collection d)")
    case True
    with Cons.prems have "c \<in> set ds" by auto
    moreover from True Cons.prems
    have "entity_get (withDefaults rt ds e) (propertyName c) = JUndefined" by simp
    ultimately show ?thesis
      using Cons.IH [where es = es and e = e] Cons.prems True by simp
  next
    case False
    let ?dv = "defaultValue rt d"
    let ?e1 = "applyDefault ?dv (propertyName d) e"
    from False Cons.prems
    have w: "entity_get (withDefaults rt ds ?e1) (propertyName c) = JUndefined" by simp
    then have u: "entity_get ?e1 (propertyName c) = JUndefined"
      using withDefaults_keeps by blast
    show ?thesis
    proof (cases "defaultEntities m d ?dv es")
      case (Inl err)
      with False show ?thesis by simp
    next
      case (Inr r)
      obtain inc es1 where r: "r = (inc, es1)" by (cases r)
      with Inr have es1: "es1 = map (applyDefault ?dv (propertyName d)) es"
        using defaultEntities_Inr by blast
      have "c \<noteq> d"
      proof
        assume "c = d"
        with u Cons.prems
        have "defaultEntities m d ?dv es =
            Inl (MissingRequiredField (ModelMetadata.name m) (propertyName d))"
          using defaultEntities_missing [of d e es ?dv m] by simp
        with Inr show False by simp
      qed
      with Cons.prems have "c \<in> set ds" by simp
      moreover from es1 Cons.prems have "?e1 \<in> set es1" by simp
      ultimately obtain err where "columnsToInsert rt m ds es1 = Inl err"
        using Cons.IH [where es = es1 and e = ?e1] Cons.prems w by blast
      with False Inr r show ?thesis by simp
    qed
  qed
qed

definition exampleRuntime :: Runtime where
  "exampleRuntime = \<lparr>now = 0, stringify = (\<lambda>v. ''[]'')\<rparr>"

text \<open>
  Claim C5. Let a non-collection column be required and let some row of the insert (one
  row, or any row of several) still have no value for it after the defaults of all
  columns have been applied. Then the first loop of the builder, the one that runs before
  the query text is begun, fails with the missing-required-field error of a required
  column, and that error is the result of the builder: no statement is returned.
\<close>

theorem insert_missing_required:
  assumes "c \<in> set (columns m)" and "\<not> truthy (collection c)" and "required c"
    and "e \<in> set (entitiesToInsert vals)"
    and "entity_get (withDefaults rt (columns m) e) (propertyName c) = JUndefined"
  shows "\<exists>d\<in>set (columns m). required d \<and>
           columnsToInsert rt m (columns m) (entitiesToInsert vals) =
             Inl (MissingRequiredField (ModelMetadata.name m) (propertyName d)) \<and>
           getInsertQueryAndParams rt repos m vals returnRecords returnSelect =
             Inl (MissingRequiredField (ModelMetadata.name m) (propertyName d))"
proof -
  from columnsToInsert_missing [OF assms]
  obtain err where e: "columnsToInsert rt m (columns m) (entitiesToInsert vals) = Inl err"
    by blast
  from columnsToInsert_Inl [OF e]
  obtain d where "d \<in> set (columns m)" "required d"
    "err = MissingRequiredField (ModelMetadata.name m) (propertyName d)" by blast
  with e show ?thesis
    by (auto simp: getInsertQueryAndParams_def)
qed

theorem insert_missing_required_witness:
  "(\<exists>d\<in>set (columns productModel). required d \<and>
      getInsertQueryAndParams exampleRuntime (\<lambda>n. None) productModel
        (ManyEntities [[(''name'', JStr ''foo''), (''store'', JNum 4)], [(''sku'', JStr ''s'')]])
        True None =
      Inl (MissingRequiredField (ModelMetadata.name productModel) (propertyName d))) \<and>
   getInsertQueryAndParams exampleRuntime (\<lambda>n. None) productModel
     (ManyEntities [[(''name'', JStr ''foo''), (''store'', JNum 4)], [(''sku'', JStr ''s'')]])
     True None =
   Inl (MissingRequiredField ''Product'' ''name'')"
proof -
  let ?vals = "ManyEntities [[(''name'', JStr ''foo''), (''store'', JNum 4)], [(''sku'', JStr ''s'')]]"
  have c: "productColumns ! 1 \<in> set (columns productModel)"
    by (simp add: productModel_def productColumns_def)
  have n: "\<not> truthy (collection (productColumns ! 1))" "required (productColumns ! 1)"
    by (simp_all add: productColumns_def productColumn_def)
  have e: "[(''sku'', JStr ''s'')] \<in> set (entitiesToInsert ?vals)"
    by simp
  have u: "entity_get (withDefaults exampleRuntime (columns productModel) [(''sku'', JStr ''s'')])
      (propertyName (productColumns ! 1)) = JUndefined"
    by code_simp
  have v: "getInsertQueryAndParams exampleRuntime (\<lambda>n. None) productModel ?vals True None =
      Inl (MissingRequiredField ''Product'' ''name'')"
    by code_simp
  from insert_missing_required [OF c n e u, of "\<lambda>n. None" True None] v
  show ?thesis by blast
qed

section \<open>Placeholders of a fragment\<close>

text \<open>
  Reading the placeholders back from SQL text: a scanner that walks the text once and
  returns the number after every \<^verbatim>\<open>$\<close> that is followed by digits, in the order of
  appearance. The text between double quotes (a quoted identifier) and between single
  quotes (a literal) is skipped, as SQL reads it.
\<close>

datatype scan_state = Idle | Dollar | Digits nat | InIdentifier | InLiteral

definition is_digit :: "char \<Rightarrow> bool" where
  "is_digit c \<longleftrightarrow> c \<in> set ''0123456789''"

definition digit_value :: "char \<Rightarrow> nat" where
  "digit_value c = of_char c - 48"

fun flush :: "scan_state \<Rightarrow> nat list" where
  "flush (Digits n) = [n]"
| "flush st = []"

fun outside :: "scan_state \<Rightarrow> bool" where
  "outside InIdentifier = False"
| "outside InLiteral = False"
| "outside st = True"

fun step :: "scan_state \<Rightarrow> char \<Rightarrow> scan_state" where
  "step InIdentifier c = (if c = CHR 0x22 then Idle else InIdentifier)"
| "step InLiteral c = (if c = CHR 0x27 then Idle else InLiteral)"
| "step st c =
     (if is_digit c then
        (case st of
           Dollar \<Rightarrow> Digits (digit_value c)
         | Digits n \<Rightarrow> Digits (10 * n + digit_value c)
         | _ \<Rightarrow> Idle)
      else if c = CHR ''$'' then Dollar
      else if c = CHR 0x22 then InIdentifier
      else if c = CHR 0x27 then InLiteral
      else Idle)"

definition emit :: "scan_state \<Rightarrow> char \<Rightarrow> nat list" where
  "emit st c = (if is_digit c then [] else flush st)"

fun scan :: "scan_state \<Rightarrow> string \<Rightarrow> nat list" where
  "scan st [] = flush st"
| "scan st (c # cs) = emit st c @ scan (step st c) cs"

text \<open>The placeholder indices of a text, and the texts that end outside every quote.\<close>

definition placeholders :: "string \<Rightarrow> nat list" where
  "placeholders s = scan Idle s"

definition balanced :: "string \<Rightarrow> bool" where
  "balanced s \<longleftrightarrow> outside (foldl step Idle s)"

definition plain :: "string \<Rightarrow> bool" where
  "plain s \<longleftrightarrow> CHR ''$'' \<notin> set s \<and> CHR 0x22 \<notin> set s \<and> CHR 0x27 \<notin> set s"

lemma outside_nondigit:
  "outside st \<Longrightarrow> \<not> is_digit c \<Longrightarrow> step st c = step Idle c \<and> emit st c = flush st"
  by (cases st) (simp_all add: emit_def)

lemma scan_outside:
  "outside st \<Longrightarrow> b = [] \<or> \<not> is_digit (hd b) \<Longrightarrow> scan st b = flush st @ scan Idle b"
  by (cases b) (auto simp: outside_nondigit emit_def)

lemma scan_append:
  "outside (foldl step st a) \<Longrightarrow> b = [] \<or> \<not> is_digit (hd b) \<Longrightarrow>
   scan st (a @ b) = scan st a @ scan Idle b"
proof (induction a arbitrary: st)
  case Nil
  then show ?case using scan_outside [of st b] by simp
next
  case (Cons c a)
  then show ?case by simp
qed

lemma placeholders_append:
  "balanced a \<Longrightarrow> b = [] \<or> \<not> is_digit (hd b) \<Longrightarrow>
   placeholders (a @ b) = placeholders a @ placeholders b"
  by (simp add: placeholders_def balanced_def scan_append)

lemma step_outside:
  "st = st' \<or> outside st \<and> outside st' \<Longrightarrow>
   step st c = step st' c \<or> outside (step st c) \<and> outside (step st' c)"
  by (cases st; cases st') (auto split: scan_state.splits)

lemma foldl_step_outside:
  "st = st' \<or> outside st \<and> outside st' \<Longrightarrow>
   foldl step st b = foldl step st' b \<or>
   outside (foldl step st b) \<and> outside (foldl step st' b)"
proof (induction b arbitrary: st st')
  case Nil
  then show ?case by simp
next
  case (Cons c b)
  from step_outside [OF Cons.prems, of c] Cons.IH [of "step st c" "step st' c"]
  show ?case by simp
qed

lemma balanced_append: "balanced a \<Longrightarrow> balanced b \<Longrightarrow> balanced (a @ b)"
  using foldl_step_outside [of "foldl step Idle a" Idle b]
  by (auto simp: balanced_def)

lemma plain_step: "c \<noteq> CHR ''$'' \<Longrightarrow> c \<noteq> CHR 0x22 \<Longrightarrow> c \<noteq> CHR 0x27 \<Longrightarrow>
   step Idle c = Idle \<and> emit Idle c = []"
  by (simp add: emit_def)

lemma plain_skip:
  "plain s \<Longrightarrow> scan Idle (s @ b) = scan Idle b \<and> foldl step Idle s = Idle"
  by (induction s) (auto simp: plain_def plain_step)

lemma plain_placeholders [simp]: "plain s \<Longrightarrow> placeholders (s @ b) = placeholders b"
  by (simp add: placeholders_def plain_skip)

lemma plain_balanced [simp]: "plain s \<Longrightarrow> balanced (s @ b) = balanced b"
  by (simp add: balanced_def plain_skip)

lemma identifier_skip:
  "CHR 0x22 \<notin> set s \<Longrightarrow>
   scan InIdentifier (s @ CHR 0x22 # b) = scan Idle b \<and>
   foldl step InIdentifier s = InIdentifier"
  by (induction s) (auto simp: emit_def)

lemma literal_skip:
  "CHR 0x27 \<notin> set s \<Longrightarrow>
   scan InLiteral (s @ CHR 0x27 # b) = scan Idle b \<and>
   foldl step InLiteral s = InLiteral"
  by (induction s) (auto simp: emit_def)

lemma digit_cases: "d < 10 \<Longrightarrow> d \<in> {0, 1, 2, 3, 4, 5, 6, 7, 8, 9 :: nat}"
  by auto

lemma digit_char_digit: "d < 10 \<Longrightarrow> is_digit (digit_char d) \<and> digit_value (digit_char d) = d"
  using digit_cases [of d] by (auto simp: is_digit_def digit_value_def)

fun digits_from :: "scan_state \<Rightarrow> nat" where
  "digits_from (Digits k) = k"
| "digits_from st = 0"

lemma step_digit:
  "st = Dollar \<or> (\<exists>k. st = Digits k) \<Longrightarrow> d < 10 \<Longrightarrow>
   step st (digit_char d) = Digits (10 * digits_from st + d) \<and> emit st (digit_char d) = []"
  using digit_char_digit [of d] by (auto simp: emit_def simp del: digit_char.simps)

lemma show_nat_scan:
  "st = Dollar \<or> (\<exists>k. st = Digits k) \<Longrightarrow>
   \<exists>m. foldl step st (show_nat n) = Digits m \<and>
       (\<forall>b. scan st (show_nat n @ b) = scan (Digits m) b) \<and>
       (st = Dollar \<longrightarrow> m = n)"
proof (induction n arbitrary: st rule: show_nat.induct)
  case (1 n)
  show ?case
  proof (cases "n < 10")
    case True
    with "1.prems" step_digit [of st n] show ?thesis
      by (subst (1 2) show_nat.simps) (auto simp del: digit_char.simps)
  next
    case False
    from "1.IH" [OF False "1.prems"] obtain m where
      m: "foldl step st (show_nat (n div 10)) = Digits m"
        "\<forall>b. scan st (show_nat (n div 10) @ b) = scan (Digits m) b"
        "st = Dollar \<longrightarrow> m = n div 10"
      by blast
    have d: "n mod 10 < 10" by simp
    from step_digit [of "Digits m" "n mod 10"] d
    have s: "step (Digits m) (digit_char (n mod 10)) = Digits (10 * m + n mod 10)"
      "emit (Digits m) (digit_char (n mod 10)) = []"
      by simp_all
    show ?thesis
      apply (subst (1 2) show_nat.simps)
      using False m s by (auto simp del: digit_char.simps)
  qed
qed

lemma dollar_placeholders:
  "b = [] \<or> \<not> is_digit (hd b) \<Longrightarrow>
   placeholders (CHR ''$'' # show_nat n @ b) = n # placeholders b"
proof -
  assume b: "b = [] \<or> \<not> is_digit (hd b)"
  from show_nat_scan [of Dollar n]
  have "scan Dollar (show_nat n @ b) = scan (Digits n) b" by auto
  with scan_outside [of "Digits n" b] b show ?thesis
    by (simp add: placeholders_def emit_def is_digit_def)
qed

lemma dollar_balanced: "balanced (CHR ''$'' # show_nat n @ b) = balanced b"
proof -
  from show_nat_scan [of Dollar n]
  have "foldl step Dollar (show_nat n) = Digits n" by auto
  with foldl_step_outside [of "Digits n" Idle b] show ?thesis
    by (auto simp: balanced_def is_digit_def)
qed

definition separator :: "string \<Rightarrow> bool" where
  "separator sep \<longleftrightarrow> plain sep \<and> sep \<noteq> [] \<and> \<not> is_digit (hd sep)"

lemma join_numbered:
  "separator sep \<Longrightarrow> list_all balanced fs \<Longrightarrow>
   placeholders (join sep fs) = concat (map placeholders fs) \<and> balanced (join sep fs)"
proof (induction sep fs rule: join.induct)
  case (1 sep)
  then show ?case by (simp add: placeholders_def balanced_def)
next
  case (2 sep x)
  then show ?case by simp
next
  case (3 sep x y ys)
  then have r: "placeholders (join sep (y # ys)) = concat (map placeholders (y # ys))"
    "balanced (join sep (y # ys))" by simp_all
  from 3 have x: "balanced x" by simp
  from 3 have h: "sep @ join sep (y # ys) = [] \<or> \<not> is_digit (hd (sep @ join sep (y # ys)))"
    by (simp add: separator_def)
  from 3 have p: "plain sep" by (simp add: separator_def)
  have "placeholders (x @ sep @ join sep (y # ys)) =
      placeholders x @ placeholders (sep @ join sep (y # ys))"
    using placeholders_append [OF x h] .
  moreover have "balanced (x @ sep @ join sep (y # ys))"
    using balanced_append [OF x, of "sep @ join sep (y # ys)"] r p by simp
  ultimately show ?case using r p by simp
qed

section \<open>Numbering of the placeholders\<close>

text \<open>
  A fragment compiled from the parameters \<open>ps\<close> to the parameters \<open>ps'\<close> is numbered when
  \<open>ps'\<close> extends \<open>ps\<close>, the text ends outside every quote, and its placeholders, read
  in order, are the positions (counted from one) of the parameters appended. \<open>numberedAll\<close>
  says the same of a list of fragments compiled one after the other.
\<close>

definition numbered :: "jsval list \<Rightarrow> string \<Rightarrow> jsval list \<Rightarrow> bool" where
  "numbered ps sql ps' \<longleftrightarrow>
     (\<exists>added. ps' = ps @ added) \<and> balanced sql \<and>
     placeholders sql = map Suc [length ps..<length ps']"

definition numberedAll :: "jsval list \<Rightarrow> string list \<Rightarrow> jsval list \<Rightarrow> bool" where
  "numberedAll ps fs ps' \<longleftrightarrow>
     (\<exists>added. ps' = ps @ added) \<and> list_all balanced fs \<and>
     concat (map placeholders fs) = map Suc [length ps..<length ps']"

text \<open>
  The column names of a schema can stand between double quotes: none contains one. The
  compiler writes identifiers as \<^verbatim>\<open>"name"\<close> and escapes nothing.
\<close>

definition quotable :: "ModelSchema \<Rightarrow> bool" where
  "quotable schema \<longleftrightarrow>
     list_all (\<lambda>(p, a). CHR 0x22 \<notin> set p \<and> CHR 0x22 \<notin> set (orEmpty (columnName a)))
       (attributes schema)"

text \<open>The results of the compiler that, when they are fragments, are numbered.\<close>

definition fragmentOk :: "jsval list \<Rightarrow> error + fragment \<Rightarrow> bool" where
  "fragmentOk ps r = (case r of Inl e \<Rightarrow> True | Inr (sql, ps') \<Rightarrow> numbered ps sql ps')"

definition fragmentsOk :: "jsval list \<Rightarrow> error + (string list \<times> jsval list) \<Rightarrow> bool" where
  "fragmentsOk ps r = (case r of Inl e \<Rightarrow> True | Inr (fs, ps') \<Rightarrow> numberedAll ps fs ps')"

lemma lookup_mem: "lookup es k = Some v \<Longrightarrow> (k, v) \<in> set es"
  by (induction es) (auto split: if_splits)

lemma getColumnName_Inr:
  "getColumnName schema pn = Inr c \<Longrightarrow>
   \<exists>p a. pn = Some p \<and> lookup (attributes schema) p = Some a \<and>
     c = (if truthy (columnName a) then the (columnName a) else p)"
  by (cases pn) (auto simp: getColumnName_def split: if_splits option.splits)

lemma getColumnName_quotable:
  assumes "quotable schema" and "getColumnName schema pn = Inr c"
  shows "CHR 0x22 \<notin> set c"
proof -
  from getColumnName_Inr [OF assms(2)]
  obtain p a where p: "pn = Some p" "lookup (attributes schema) p = Some a"
    and c: "c = (if truthy (columnName a) then the (columnName a) else p)"
    by blast
  from p(2) have "(p, a) \<in> set (attributes schema)" by (rule lookup_mem)
  with assms(1) have "CHR 0x22 \<notin> set p" "CHR 0x22 \<notin> set (orEmpty (columnName a))"
    by (auto simp: quotable_def list_all_iff)
  with c show ?thesis by (cases "columnName a") auto
qed

lemma scan_dollar [simp]:
  "scan Dollar (show_nat n @ b) = scan (Digits n) b"
  "scan Dollar (show_nat n) = [n]"
  "foldl step Dollar (show_nat n) = Digits n"
  using show_nat_scan [of Dollar n] by (auto dest: spec [of _ "[]"])

lemma scan_identifier [simp]:
  "CHR 0x22 \<notin> set s \<Longrightarrow> scan InIdentifier (s @ CHR 0x22 # b) = scan Idle b"
  "CHR 0x22 \<notin> set s \<Longrightarrow> foldl step InIdentifier s = InIdentifier"
  by (simp_all add: identifier_skip)

lemmas scan_eval = placeholders_def balanced_def emit_def is_digit_def placeholder_def

lemma numbered_same: "balanced sql \<Longrightarrow> placeholders sql = [] \<Longrightarrow> numbered ps sql ps"
  by (simp add: numbered_def)

lemma numbered_one:
  "balanced sql \<Longrightarrow> placeholders sql = [Suc (length ps)] \<Longrightarrow> numbered ps sql (ps @ [v])"
  by (simp add: numbered_def)

lemma comparison_numbered:
  assumes "quotable schema"
  shows "fragmentOk ps (buildComparisonOperatorStatement schema pn cmp neg v ps)"
proof (cases "getColumnName schema pn")
  case (Inl e)
  then show ?thesis
    by (simp add: fragmentOk_def buildComparisonOperatorStatement_def)
next
  case (Inr c)
  with assms have q: "CHR 0x22 \<notin> set c" by (rule getColumnName_quotable)
  show ?thesis
    unfolding fragmentOk_def buildComparisonOperatorStatement_def Inr
    by (cases neg)
      (auto simp: Let_def q scan_eval intro!: numbered_same numbered_one split: sum.splits)
qed

lemma like_numbered:
  assumes "quotable schema"
  shows "fragmentOk ps (buildLikeOperatorStatement schema pn neg v ps)"
proof (cases "getColumnName schema pn")
  case (Inl e)
  then show ?thesis
    by (auto simp: fragmentOk_def buildLikeOperatorStatement_def likeValues_def likeValue_def
        scan_eval intro!: numbered_same split: jsval.splits)
next
  case (Inr c)
  with assms have q: "CHR 0x22 \<notin> set c" by (rule getColumnName_quotable)
  have vs: "fragmentOk ps (likeValues schema pn neg xs ps)" for xs
    unfolding fragmentOk_def likeValues_def Inr
    by (cases neg) (auto simp: Let_def q scan_eval intro!: numbered_one)
  have v1: "fragmentOk ps (likeValue schema pn neg x ps)" for x
    unfolding fragmentOk_def likeValue_def Inr
    by (cases neg; cases x)
      (auto simp: Let_def q scan_eval intro!: numbered_one numbered_same)
  show ?thesis
    unfolding buildLikeOperatorStatement_def
    by (cases v) (auto simp: vs v1, auto simp: fragmentOk_def scan_eval intro!: numbered_same)
qed

subsection \<open>The branches of the dispatch\<close>

text \<open>The pattern the operators \<^verbatim>\<open>contains\<close>, \<^verbatim>\<open>startsWith\<close> and \<^verbatim>\<open>endsWith\<close> pass on to \<^verbatim>\<open>like\<close>.\<close>

definition patternOf :: "string \<Rightarrow> string \<Rightarrow> string" where
  "patternOf k s =
     (if k = ''contains'' then ''%'' @ s @ ''%''
      else if k = ''startsWith'' then s @ ''%''
      else ''%'' @ s)"

lemma buildWhere_pattern:
  assumes "switchKey cmp pn = Some k"
    and "k = ''contains'' \<or> k = ''startsWith'' \<or> k = ''endsWith''"
  shows "buildWhere S schema pn cmp neg v ps =
     (case v of
        JArr vs \<Rightarrow>
          if list_all isString vs then
            buildWhere S schema pn (Some ''like'') neg
              (JArr (map (\<lambda>val. JStr (patternOf k (str_of val))) vs)) ps
          else Inl (InvalidConstraintValues k (orUndefined pn) (globalId schema))
      | JStr s \<Rightarrow> buildWhere S schema pn (Some ''like'') neg (JStr (patternOf k s)) ps
      | _ \<Rightarrow> Inl (InvalidConstraint k (orUndefined pn) (globalId schema)))"
proof -
  from assms(2) consider "k = ''contains''" | "k = ''startsWith''" | "k = ''endsWith''"
    by blast
  then show ?thesis
  proof cases
    case 1
    with assms(1) show ?thesis
      by (subst buildWhere.simps) (cases v; simp add: Let_def patternOf_def)
  next
    case 2
    with assms(1) show ?thesis
      by (subst buildWhere.simps) (cases v; simp add: Let_def patternOf_def)
  next
    case 3
    with assms(1) show ?thesis
      by (subst buildWhere.simps) (cases v; simp add: Let_def patternOf_def)
  qed
qed

lemma buildWhere_like:
  "switchKey cmp pn = Some ''like'' \<Longrightarrow>
   buildWhere S schema pn cmp neg v ps = buildLikeOperatorStatement schema pn neg v ps"
  by (subst buildWhere.simps) (simp add: Let_def)

lemma buildWhere_undefined:
  "switchKey cmp pn \<notin> Some ` set whereCases \<Longrightarrow>
   buildWhere S schema pn cmp neg JUndefined ps =
     Inl (UndefinedValue (orEmpty pn) (globalId schema))"
  by (subst buildWhere.simps) (simp add: Let_def whereCases_def)

lemma buildWhere_hydrated_error:
  "switchKey cmp pn \<notin> Some ` set whereCases \<Longrightarrow> v \<noteq> JUndefined \<Longrightarrow>
   hydratedValue S schema pn v = Inl e \<Longrightarrow>
   buildWhere S schema pn cmp neg v ps = Inl e"
  by (subst buildWhere.simps) (simp add: Let_def whereCases_def)

lemma buildWhere_hydrated:
  "switchKey cmp pn \<notin> Some ` set whereCases \<Longrightarrow> v \<noteq> JUndefined \<Longrightarrow>
   hydratedValue S schema pn v = Inr (Some x) \<Longrightarrow>
   buildWhere S schema pn cmp neg v ps = buildWhere S schema pn cmp neg x ps"
  by (subst buildWhere.simps) (simp add: Let_def whereCases_def)

text \<open>
  The constraints of the values of an array that are not \<^verbatim>\<open>null\<close>: the middle of the array
  branch of \<^verbatim>\<open>_buildWhere\<close>, named so that the branch can be stated in one equation.
\<close>

definition arrayValueConstraints ::
  "ModelSchemasByGlobalId \<Rightarrow> ModelSchema \<Rightarrow> string option \<Rightarrow> string option \<Rightarrow> bool \<Rightarrow> jsval list
     \<Rightarrow> jsval list \<Rightarrow> error + (string list \<times> jsval list)" where
  \<open>arrayValueConstraints S schema pn cmp neg valueWithoutNull ps =
     (if length valueWithoutNull = 1 then
        (case buildWhere S schema pn None neg (hd valueWithoutNull) ps of
           Inl e \<Rightarrow> Inl e
         | Inr (c, ps1) \<Rightarrow> Inr ([c], ps1))
      else if valueWithoutNull \<noteq> [] then
        (case getColumnName schema pn of
           Inl e \<Rightarrow> Inl e
         | Inr cname \<Rightarrow>
             if isArrayType (propertyOrComparerType schema pn cmp) then
               buildEach S schema pn neg valueWithoutNull ps
             else
               Inr ([''"'' @ cname @ ''"'' @ (if neg then ''<>ALL'' else ''=ANY'')
                       @ ''('' @ placeholder (ps @ [JArr valueWithoutNull])
                       @ castType (propertyOrComparerType schema pn cmp) @ '')''],
                    ps @ [JArr valueWithoutNull]))
      else Inr ([], ps))\<close>

lemma buildWhere_array:
  "switchKey cmp pn \<notin> Some ` set whereCases \<Longrightarrow>
   hydratedValue S schema pn (JArr vs) = Inr None \<Longrightarrow> vs \<noteq> [] \<Longrightarrow>
   buildWhere S schema pn cmp neg (JArr vs) ps =
     (case buildEach S schema pn neg (filter isNull vs) ps of
        Inl e \<Rightarrow> Inl e
      | Inr (nullConstraints, ps1) \<Rightarrow>
          (case arrayValueConstraints S schema pn cmp neg
                  (filter (\<lambda>item. \<not> isNull item) vs) ps1 of
             Inl e \<Rightarrow> Inl e
           | Inr (valueConstraints, ps3) \<Rightarrow>
               Inr (combine neg (nullConstraints @ valueConstraints), ps3)))"
  by (subst buildWhere.simps)
    (simp add: Let_def whereCases_def arrayValueConstraints_def split: sum.splits prod.splits)

lemma buildWhere_scalar:
  "switchKey cmp pn \<notin> Some ` set whereCases \<Longrightarrow>
   hydratedValue S schema pn v = Inr None \<Longrightarrow>
   v \<noteq> JUndefined \<Longrightarrow> \<not> isArray v \<Longrightarrow> (\<forall>es. v \<noteq> JObj es) \<Longrightarrow>
   buildWhere S schema pn cmp neg v ps =
     buildComparisonOperatorStatement schema pn cmp neg v ps"
  by (subst buildWhere.simps) (cases v; simp add: Let_def whereCases_def)


lemma upt_params_append:
  "[length ps..<length (ps @ a)] @ [length (ps @ a)..<length ((ps @ a) @ b)] =
   [length ps..<length ((ps @ a) @ b)]"
  using upt_add_eq_append [of "length ps" "length ps + length a" "length b"]
  by (simp add: add.assoc)

lemma numberedAll_Nil [simp]: "numberedAll ps [] ps"
  by (simp add: numberedAll_def)

lemma numberedAll_Cons:
  assumes "numbered ps f p1" and "numberedAll p1 fs p2"
  shows "numberedAll ps (f # fs) p2"
proof -
  from assms obtain a b where p: "p1 = ps @ a" "p2 = (ps @ a) @ b"
    by (auto simp: numbered_def numberedAll_def)
  from assms p have "placeholders f @ concat (map placeholders fs) =
      map Suc ([length ps..<length (ps @ a)] @ [length (ps @ a)..<length ((ps @ a) @ b)])"
    by (simp add: numbered_def numberedAll_def del: length_append append_assoc)
  then have "concat (map placeholders (f # fs)) = map Suc [length ps..<length p2]"
    by (simp only: upt_params_append p concat.simps list.map)
  with assms p show ?thesis
    by (auto simp: numbered_def numberedAll_def)
qed

lemma numberedAll_append:
  assumes "numberedAll ps fs p1" and "numberedAll p1 gs p2"
  shows "numberedAll ps (fs @ gs) p2"
proof -
  from assms obtain a b where p: "p1 = ps @ a" "p2 = (ps @ a) @ b"
    by (auto simp: numberedAll_def)
  from assms p have "concat (map placeholders fs) @ concat (map placeholders gs) =
      map Suc ([length ps..<length (ps @ a)] @ [length (ps @ a)..<length ((ps @ a) @ b)])"
    by (simp add: numberedAll_def del: length_append append_assoc)
  then have "concat (map placeholders (fs @ gs)) = map Suc [length ps..<length p2]"
    by (simp only: upt_params_append p concat_append map_append)
  with assms p show ?thesis
    by (auto simp: numberedAll_def)
qed

lemma numberedAll_single: "numbered ps f p1 \<Longrightarrow> numberedAll ps [f] p1"
  by (simp add: numbered_def numberedAll_def)

lemma separators [simp]: "separator '' AND ''" "separator '' OR ''" "separator '',''"
  by (simp_all add: separator_def plain_def is_digit_def)

lemma join_and_numbered: "numberedAll ps fs p1 \<Longrightarrow> numbered ps (join '' AND '' fs) p1"
  using join_numbered [of "'' AND ''" fs] by (simp add: numbered_def numberedAll_def)

lemma parenthesised:
  "balanced s \<Longrightarrow> balanced (''('' @ s @ '')'') \<and>
     placeholders (''('' @ s @ '')'') = placeholders s"
proof -
  assume b: "balanced s"
  have p: "plain ''(''" "plain '')''" by (simp_all add: plain_def)
  have "placeholders (s @ '')'') = placeholders s @ placeholders '')''"
    using b by (rule placeholders_append) (simp add: is_digit_def)
  moreover have "placeholders '')'' = []"
    using plain_placeholders [OF p(2), of "[]"] by (simp add: placeholders_def)
  moreover have "balanced (s @ '')'')"
    using balanced_append [OF b, of "'')''"] plain_balanced [OF p(2), of "[]"]
    by (simp add: balanced_def)
  ultimately show ?thesis
    using plain_placeholders [OF p(1), of "s @ '')''"] plain_balanced [OF p(1), of "s @ '')''"]
    by simp
qed

lemma parenthesised_all:
  "numberedAll ps fs p1 \<Longrightarrow> numberedAll ps (map (\<lambda>c. ''('' @ c @ '')'') fs) p1"
proof -
  assume n: "numberedAll ps fs p1"
  then have b: "list_all balanced fs" by (simp add: numberedAll_def)
  then have "list_all balanced (map (\<lambda>c. ''('' @ c @ '')'') fs) \<and>
      concat (map placeholders (map (\<lambda>c. ''('' @ c @ '')'') fs)) = concat (map placeholders fs)"
    by (induction fs) (use parenthesised in \<open>auto simp del: append.simps\<close>)
  with n show ?thesis by (simp add: numberedAll_def)
qed

lemma combine_numbered: "numberedAll ps fs p1 \<Longrightarrow> numbered ps (combine neg fs) p1"
proof -
  assume n: "numberedAll ps fs p1"
  then have b: "list_all balanced fs" by (simp add: numberedAll_def)
  have j: "placeholders (join sep fs) = concat (map placeholders fs)" "balanced (join sep fs)"
    if "separator sep" for sep
    using join_numbered [OF that b] by simp_all
  consider "length fs = 1" | "length fs \<noteq> 1" "neg" | "length fs \<noteq> 1" "\<not> neg" by blast
  then show ?thesis
  proof cases
    case 1
    then obtain f where "fs = [f]" by (cases fs) auto
    with n show ?thesis by (simp add: combine_def numbered_def numberedAll_def)
  next
    case 2
    with n j [of "'' AND ''"] show ?thesis
      by (simp add: combine_def numbered_def numberedAll_def)
  next
    case 3
    with n j [of "'' OR ''"] parenthesised [of "join '' OR '' fs"] show ?thesis
      by (simp add: combine_def numbered_def numberedAll_def)
  qed
qed

subsection \<open>The compiler numbers its placeholders\<close>

lemma fragmentOk_Inl [simp]: "fragmentOk ps (Inl e)" "fragmentsOk ps (Inl e)"
  by (simp_all add: fragmentOk_def fragmentsOk_def)

lemma fragmentOk_Inr [simp]:
  "fragmentOk ps (Inr (sql, p1)) = numbered ps sql p1"
  "fragmentsOk ps (Inr (fs, p1)) = numberedAll ps fs p1"
  by (simp_all add: fragmentOk_def fragmentsOk_def)

lemma fragmentsOk_Cons:
  assumes "fragmentOk ps r1"
    and "\<And>c p1. r1 = Inr (c, p1) \<Longrightarrow> fragmentsOk p1 (r2 p1)"
  shows "fragmentsOk ps
     (case r1 of
        Inl e \<Rightarrow> Inl e
      | Inr (c, p1) \<Rightarrow>
          (case r2 p1 of Inl e \<Rightarrow> Inl e | Inr (cs, p2) \<Rightarrow> Inr (c # cs, p2)))"
  using assms
  by (auto simp: numberedAll_Cons split: sum.splits)

lemma empty_array_numbered:
  assumes "quotable schema"
  shows "fragmentOk ps
     (if isArrayType t then
        (case getColumnName schema pn of
           Inl e \<Rightarrow> Inl e
         | Inr c \<Rightarrow>
             Inr ([CHR 0x22] @ c @ [CHR 0x22] @ (if neg then ''<>'' else ''='')
                    @ [CHR 0x27] @ ''{}'' @ [CHR 0x27], ps))
      else Inr (if neg then ''1=1'' else ''1<>1'', ps))"
  using getColumnName_quotable [OF assms, of pn]
  by (auto simp: scan_eval intro!: numbered_same split: sum.splits)

lemma arrayValue_numbered:
  assumes "quotable schema"
    and "length xs = 1 \<Longrightarrow> fragmentOk ps (buildWhere S schema pn None neg (hd xs) ps)"
    and "\<And>c. length xs \<noteq> 1 \<Longrightarrow> xs \<noteq> [] \<Longrightarrow> getColumnName schema pn = Inr c \<Longrightarrow>
           isArrayType (propertyOrComparerType schema pn cmp) \<Longrightarrow>
           fragmentsOk ps (buildEach S schema pn neg xs ps)"
  shows "fragmentsOk ps (arrayValueConstraints S schema pn cmp neg xs ps)"
proof -
  consider "length xs = 1" | "length xs \<noteq> 1" "xs \<noteq> []" | "xs = []" by auto
  then show ?thesis
  proof cases
    case 1
    with assms(2) show ?thesis
      by (auto simp: arrayValueConstraints_def numberedAll_single split: sum.splits)
  next
    case 2
    show ?thesis
    proof (cases "getColumnName schema pn")
      case (Inl e)
      with 2 show ?thesis by (simp add: arrayValueConstraints_def)
    next
      case (Inr c)
      with assms(1) have q: "CHR 0x22 \<notin> set c" by (rule getColumnName_quotable)
      show ?thesis
      proof (cases "isArrayType (propertyOrComparerType schema pn cmp)")
        case True
        from assms(3) [OF 2 Inr True] 2 Inr True show ?thesis
          by (simp add: arrayValueConstraints_def)
      next
        case False
        have "numbered ps ([CHR 0x22] @ c @ [CHR 0x22] @ (if neg then ''<>ALL'' else ''=ANY'')
            @ ''('' @ placeholder (ps @ [JArr xs])
            @ castType (propertyOrComparerType schema pn cmp) @ '')'') (ps @ [JArr xs])"
          by (rule numbered_one) (auto simp: q scan_eval castType_def)
        with 2 Inr False show ?thesis
          by (simp add: arrayValueConstraints_def numberedAll_single)
      qed
    qed
  next
    case 3
    then show ?thesis by (simp add: arrayValueConstraints_def)
  qed
qed

lemma dispatch_cases:
  obtains (negation) "k = Some ''!'' \<or> k = Some ''not''"
  | (or) "k = Some ''or''"
  | (pattern) p where "k = Some p" "p = ''contains'' \<or> p = ''startsWith'' \<or> p = ''endsWith''"
  | (like) "k = Some ''like''"
  | (default) "k \<notin> Some ` set whereCases"
proof (cases "k \<in> Some ` set whereCases")
  case True
  then obtain p where p: "k = Some p" "p \<in> set whereCases" by (auto simp: image_iff)
  from p(2) have "p = ''!'' \<or> p = ''not'' \<or> p = ''or'' \<or> p = ''contains'' \<or>
      p = ''startsWith'' \<or> p = ''endsWith'' \<or> p = ''like''"
    by (simp add: whereCases_def)
  then show ?thesis
  proof (elim disjE)
    assume "p = ''!''"
    with p(1) show ?thesis by (intro negation) simp
  next
    assume "p = ''not''"
    with p(1) show ?thesis by (intro negation) simp
  next
    assume "p = ''or''"
    with p(1) show ?thesis by (intro or) simp
  next
    assume "p = ''contains''"
    with p(1) show ?thesis by (intro pattern [of p]) simp_all
  next
    assume "p = ''startsWith''"
    with p(1) show ?thesis by (intro pattern [of p]) simp_all
  next
    assume "p = ''endsWith''"
    with p(1) show ?thesis by (intro pattern [of p]) simp_all
  next
    assume "p = ''like''"
    with p(1) show ?thesis by (intro like) simp
  qed
next
  case False
  then show ?thesis by (rule default)
qed

lemma default_not_case:
  assumes "k \<notin> Some ` set whereCases"
  shows "\<not> (k = Some ''!'' \<or> k = Some ''not'')" "k \<noteq> Some ''or''" "k \<noteq> Some ''contains''"
    "k \<noteq> Some ''startsWith''" "k \<noteq> Some ''endsWith''" "k \<noteq> Some ''like''"
  using assms by (simp_all add: whereCases_def image_iff)

lemma where_numbered:
  assumes "quotable schema"
  shows "fragmentOk ps (buildWhere S schema pn cmp neg v ps)"
    and "fragmentOk ps (buildOrOperatorStatement S schema neg v ps)"
    and "fragmentsOk ps (buildEach S schema pn neg vs ps)"
    and "fragmentsOk ps (buildAndValues S schema pn neg es ps)"
  using assms
proof (induction S schema pn cmp neg v ps and S schema neg v ps and S schema pn neg vs ps
    and S schema pn neg es ps
    rule: buildWhere_buildOrOperatorStatement_buildEach_buildAndValues.induct)
  case (1 S schema pn cmp neg v ps)
  note q = "1.prems"
  let ?k = "switchKey cmp pn"
  show ?case
  proof (cases ?k rule: dispatch_cases)
    case negation
    show ?thesis
    proof (cases "pn = Some ''!'' \<or> pn = Some ''not''")
      case True
      with negation show ?thesis by (simp add: buildWhere_negation)
    next
      case False
      from "1.IH"(1) [OF refl negation False q] negation False show ?thesis
        by (simp add: buildWhere_negation)
    qed
  next
    case or
    then have n: "\<not> (?k = Some ''!'' \<or> ?k = Some ''not'')" by simp
    from "1.IH"(2) [OF refl n or q] or show ?thesis
      by (simp add: buildWhere_or)
  next
    case (pattern p)
    then have n: "\<not> (?k = Some ''!'' \<or> ?k = Some ''not'')" "?k \<noteq> Some ''or''" by auto
    note eq = buildWhere_pattern [OF pattern, of S schema neg v ps]
    show ?thesis
    proof (cases v)
      case (JStr s)
      from pattern(2) have "fragmentOk ps
          (buildWhere S schema pn (Some ''like'') neg (JStr (patternOf p s)) ps)"
      proof (elim disjE)
        assume p: "p = ''contains''"
        with pattern have k: "?k = Some ''contains''" by simp
        from "1.IH"(3) [OF refl n k JStr q] p show ?thesis by (simp add: patternOf_def)
      next
        assume p: "p = ''startsWith''"
        with pattern have k: "?k \<noteq> Some ''contains''" "?k = Some ''startsWith''" by simp_all
        from "1.IH"(5) [OF refl n k JStr q] p show ?thesis by (simp add: patternOf_def)
      next
        assume p: "p = ''endsWith''"
        with pattern have k: "?k \<noteq> Some ''contains''" "?k \<noteq> Some ''startsWith''"
          "?k = Some ''endsWith''" by simp_all
        from "1.IH"(7) [OF refl n k JStr q] p show ?thesis by (simp add: patternOf_def)
      qed
      with eq JStr show ?thesis by simp
    next
      case (JArr xs)
      show ?thesis
      proof (cases "list_all isString xs")
        case False
        with eq JArr show ?thesis by simp
      next
        case True
        from pattern(2) have "fragmentOk ps
            (buildWhere S schema pn (Some ''like'') neg
               (JArr (map (\<lambda>val. JStr (patternOf p (str_of val))) xs)) ps)"
        proof (elim disjE)
          assume p: "p = ''contains''"
          with pattern have k: "?k = Some ''contains''" by simp
          from "1.IH"(4) [OF refl n k JArr True q] p show ?thesis by (simp add: patternOf_def)
        next
          assume p: "p = ''startsWith''"
          with pattern have k: "?k \<noteq> Some ''contains''" "?k = Some ''startsWith''"
            by simp_all
          from "1.IH"(6) [OF refl n k JArr True q] p show ?thesis by (simp add: patternOf_def)
        next
          assume p: "p = ''endsWith''"
          with pattern have k: "?k \<noteq> Some ''contains''" "?k \<noteq> Some ''startsWith''"
            "?k = Some ''endsWith''" by simp_all
          from "1.IH"(8) [OF refl n k JArr True q] p show ?thesis by (simp add: patternOf_def)
        qed
        with eq JArr True show ?thesis by simp
      qed
    qed (use eq in simp_all)
  next
    case like
    with like_numbered [OF q] show ?thesis by (simp add: buildWhere_like)
  next
    case default
    note d = default_not_case [OF default]
    show ?thesis
    proof (cases "v = JUndefined")
      case True
      with default show ?thesis by (simp add: buildWhere_undefined)
    next
      case nu: False
      show ?thesis
      proof (cases "hydratedValue S schema pn v")
        case (Inl e)
        with default nu show ?thesis by (simp add: buildWhere_hydrated_error)
      next
        case (Inr h)
        show ?thesis
        proof (cases h)
          case (Some x)
          from "1.IH"(13) [OF refl d nu Inr Some q] default nu Inr Some show ?thesis
            by (simp add: buildWhere_hydrated)
        next
          case None
          with Inr have h: "hydratedValue S schema pn v = Inr None" by simp
          show ?thesis
          proof (cases v)
            case (JArr xs)
            show ?thesis
            proof (cases "xs = []")
              case True
              with default h JArr empty_array_numbered [OF q] show ?thesis
                by (simp add: buildWhere_empty_array)
            next
              case ne: False
              note a = "1.IH"(9) [OF refl d nu Inr None JArr ne q]
              have "fragmentOk ps
                 (case buildEach S schema pn neg (filter isNull xs) ps of
                    Inl e \<Rightarrow> Inl e
                  | Inr (nullConstraints, ps1) \<Rightarrow>
                      (case arrayValueConstraints S schema pn cmp neg
                              (filter (\<lambda>item. \<not> isNull item) xs) ps1 of
                         Inl e \<Rightarrow> Inl e
                       | Inr (valueConstraints, ps3) \<Rightarrow>
                           Inr (combine neg (nullConstraints @ valueConstraints), ps3)))"
              proof (cases "buildEach S schema pn neg (filter isNull xs) ps")
                case (Inl e)
                then show ?thesis by simp
              next
                case r: (Inr r)
                obtain ns p1 where r1: "r = (ns, p1)" by (cases r)
                with a r have n1: "numberedAll ps ns p1" by simp
                let ?xs = "filter (\<lambda>item. \<not> isNull item) xs"
                have "fragmentsOk p1 (arrayValueConstraints S schema pn cmp neg ?xs p1)"
                proof (rule arrayValue_numbered [OF q])
                  assume "length ?xs = 1"
                  from "1.IH"(10) [OF refl d nu Inr None JArr ne r [unfolded r1] refl refl
                      this q]
                  show "fragmentOk p1 (buildWhere S schema pn None neg (hd ?xs) p1)" .
                next
                  fix c
                  assume l: "length ?xs \<noteq> 1" "?xs \<noteq> []"
                    and c: "getColumnName schema pn = Inr c"
                    and t: "isArrayType (propertyOrComparerType schema pn cmp)"
                  from "1.IH"(11) [OF refl d nu Inr None JArr ne r [unfolded r1] refl refl
                      l c refl t q]
                  show "fragmentsOk p1 (buildEach S schema pn neg ?xs p1)" .
                qed
                with r r1 n1 show ?thesis
                  by (auto simp: numberedAll_append combine_numbered split: sum.splits)
              qed
              with default h JArr ne show ?thesis by (simp add: buildWhere_array)
            qed
          next
            case (JObj es)
            from "1.IH"(12) [OF refl d nu Inr None JObj q] default h JObj show ?thesis
              by (auto simp: buildWhere_object join_and_numbered split: sum.splits)
          qed (use default h nu comparison_numbered [OF q] in
              \<open>simp_all add: buildWhere_scalar\<close>)
        qed
      qed
    qed
  qed
next
  case (2 S schema neg v ps)
  show ?case
  proof (cases v)
    case (JArr xs)
    note a = "2.IH" [OF JArr "2.prems"]
    show ?thesis
    proof (cases "buildEach S schema None neg xs ps")
      case (Inl e)
      with JArr show ?thesis by simp
    next
      case (Inr r)
      obtain cs p1 where r: "r = (cs, p1)" by (cases r)
      with a Inr have "numberedAll ps cs p1" by simp
      then have "numbered ps (combine neg (map (\<lambda>orClause. ''('' @ orClause @ '')'') cs)) p1"
        by (intro combine_numbered parenthesised_all)
      with JArr Inr r show ?thesis by simp
    qed
  next
    case (JStr s)
    have "numbered ps (combine neg []) ps"
      by (rule combine_numbered) simp
    with JStr show ?thesis by simp
  qed simp_all
next
  case (3 S schema pn neg ps)
  then show ?case by simp
next
  case (4 S schema pn neg item items ps)
  have "fragmentsOk ps
     (case buildWhere S schema pn None neg item ps of
        Inl e \<Rightarrow> Inl e
      | Inr (c, p1) \<Rightarrow>
          (case buildEach S schema pn neg items p1 of
             Inl e \<Rightarrow> Inl e
           | Inr (cs, p2) \<Rightarrow> Inr (c # cs, p2)))"
    by (rule fragmentsOk_Cons) (use 4 in auto)
  then show ?case by simp
next
  case (5 S schema pn neg ps)
  then show ?case by simp
next
  case (6 S schema pn neg key w es ps)
  let ?c = "if isComparer key then Some key else None"
  let ?p = "if isComparer key then pn else Some key"
  have "fragmentsOk ps
     (case buildWhere S schema ?p ?c neg w ps of
        Inl e \<Rightarrow> Inl e
      | Inr (c, p1) \<Rightarrow>
          (case buildAndValues S schema ?p neg es p1 of
             Inl e \<Rightarrow> Inl e
           | Inr (cs, p2) \<Rightarrow> Inr (c # cs, p2)))"
    by (rule fragmentsOk_Cons) (use 6 in auto)
  then show ?case by (simp add: Let_def)
qed

text \<open>
  Claim C1. Let the column names of the schema be quotable. Whatever the where
  expression, the property name, the comparer and the negation flag, and however deep the
  nesting, a fragment the where compiler returns leaves the parameters it was given in
  place and appends the new ones after them, and the placeholders of its text, read in
  order of appearance, are exactly the positions of the appended parameters, counted from
  one: no gap, no repetition, increasing. Compiled from no parameters, the placeholders
  are \<open>1, ..., length ps'\<close>, and placeholder \<open>k\<close> stands at the position of parameter
  \<open>k - 1\<close>.
\<close>

theorem placeholders_numbered:
  assumes "quotable schema"
    and "buildWhere S schema pn cmp neg v ps = Inr (sql, ps')"
  shows "(\<exists>added. ps' = ps @ added) \<and>
         placeholders sql = map Suc [length ps..<length ps'] \<and>
         (ps = [] \<longrightarrow> placeholders sql = [1..<Suc (length ps')])"
proof -
  from where_numbered(1) [OF assms(1), of ps S pn cmp neg v] assms(2)
  have n: "numbered ps sql ps'" by simp
  then have "placeholders sql = map Suc [length ps..<length ps']"
    by (simp add: numbered_def)
  moreover have "map Suc [0..<length ps'] = [1..<Suc (length ps')]"
    by (simp add: map_Suc_upt del: upt_Suc)
  ultimately show ?thesis
    using n by (simp add: numbered_def del: upt_Suc)
qed

theorem placeholders_numbered_witness:
  \<open>buildWhere exampleSchemas productSchema None (Some ''and'') False
     (JObj [(''or'', JArr [JObj [(''name'', JObj [(''contains'', JStr ''a'')])],
                           JObj [(''not'', JObj [(''id'', JArr [JNum 1, JNum 2])])]]),
            (''store'', JNum 5)]) [] =
     Inr (''(("name" ILIKE $1) OR ("id"<>ALL($2::INTEGER[]))) AND "store_id"=$3'',
          [JStr ''%a%'', JArr [JNum 1, JNum 2], JNum 5]) \<and>
   placeholders ''(("name" ILIKE $1) OR ("id"<>ALL($2::INTEGER[]))) AND "store_id"=$3'' =
     [1, 2, 3]\<close>
proof -
  have q: "quotable productSchema"
    by (simp add: quotable_def productSchema_def)
  have e: \<open>buildWhere exampleSchemas productSchema None (Some ''and'') False
     (JObj [(''or'', JArr [JObj [(''name'', JObj [(''contains'', JStr ''a'')])],
                           JObj [(''not'', JObj [(''id'', JArr [JNum 1, JNum 2])])]]),
            (''store'', JNum 5)]) [] =
     Inr (''(("name" ILIKE $1) OR ("id"<>ALL($2::INTEGER[]))) AND "store_id"=$3'',
          [JStr ''%a%'', JArr [JNum 1, JNum 2], JNum 5])\<close>
    by code_simp
  have u: "[1..<Suc (length [JStr ''%a%'', JArr [JNum 1, JNum 2], JNum 5])] = [1, 2, 3]"
    by code_simp
  from placeholders_numbered [OF q e] e u show ?thesis
    by simp
qed

section \<open>The undefined-value error\<close>

text \<open>A value that is \<^verbatim>\<open>undefined\<close> or holds \<^verbatim>\<open>undefined\<close> somewhere inside.\<close>

fun hasUndefined :: "jsval \<Rightarrow> bool" where
  "hasUndefined JUndefined = True"
| "hasUndefined (JArr vs) = (\<exists>v\<in>set vs. hasUndefined v)"
| "hasUndefined (JObj es) = (\<exists>(k, v)\<in>set es. hasUndefined v)"
| "hasUndefined v = False"

text \<open>The error of a query with an undefined value, and the results that are that error.\<close>

fun isUndefinedValue :: "error \<Rightarrow> bool" where
  "isUndefinedValue (UndefinedValue p g) = True"
| "isUndefinedValue e = False"

definition isUndefinedValueError :: "error + 'a \<Rightarrow> bool" where
  "isUndefinedValueError r = (case r of Inl e \<Rightarrow> isUndefinedValue e | Inr x \<Rightarrow> False)"

lemma isUndefinedValueError_simps [simp]:
  "isUndefinedValueError (Inl e) = isUndefinedValue e"
  "isUndefinedValueError (Inr x) = False"
  by (simp_all add: isUndefinedValueError_def)

lemma hasUndefined_get_prop:
  "get_prop v k \<noteq> JUndefined \<Longrightarrow> hasUndefined (get_prop v k) \<Longrightarrow> hasUndefined v"
proof (cases v)
  case (JArr xs)
  assume n: "get_prop v k \<noteq> JUndefined" and h: "hasUndefined (get_prop v k)"
  show ?thesis
  proof (cases "k = ''length''")
    case True
    with h JArr show ?thesis by (simp add: get_prop_def)
  next
    case False
    show ?thesis
    proof (cases "filter (\<lambda>i. show_nat i = k) [0..<length xs]")
      case Nil
      with n JArr False show ?thesis by (simp add: get_prop_def)
    next
      case (Cons i rest)
      then have "i \<in> set (filter (\<lambda>i. show_nat i = k) [0..<length xs])" by simp
      then have "xs ! i \<in> set xs" by simp
      with h JArr False Cons show ?thesis by (auto simp: get_prop_def)
    qed
  qed
next
  case (JObj es)
  assume "get_prop v k \<noteq> JUndefined" "hasUndefined (get_prop v k)"
  with JObj show ?thesis
    by (auto simp: get_prop_def split: option.splits dest!: lookup_mem)
qed (simp_all add: get_prop_def)

lemma hasUndefined_hydrated:
  "hydratedValue S schema pn v = Inr (Some x) \<Longrightarrow> hasUndefined x \<Longrightarrow> hasUndefined v"
  by (auto simp: hydratedValue_def Let_def split: if_splits option.splits
      intro: hasUndefined_get_prop)

lemma hydrated_error: "hydratedValue S schema pn v = Inl e \<Longrightarrow> \<exists>m. e = UnknownRelatedModel m"
  by (auto simp: hydratedValue_def Let_def split: if_splits option.splits)

lemma getColumnName_error:
  "getColumnName schema pn = Inl e \<Longrightarrow>
   e = PropertyNameNotDefined \<or> (\<exists>p g. e = UnknownProperty p g)"
  by (auto simp: getColumnName_def split: if_splits option.splits)

lemma comparison_not_undefined:
  "\<not> isUndefinedValueError (buildComparisonOperatorStatement schema pn cmp neg v ps)"
proof (cases "getColumnName schema pn")
  case (Inl e)
  with getColumnName_error [OF Inl] show ?thesis
    by (auto simp: buildComparisonOperatorStatement_def)
next
  case (Inr c)
  then show ?thesis
    by (simp add: buildComparisonOperatorStatement_def Let_def)
qed

lemma like_not_undefined:
  "\<not> isUndefinedValueError (buildLikeOperatorStatement schema pn neg v ps)"
proof (cases "getColumnName schema pn")
  case (Inl e)
  have a: "\<not> isUndefinedValueError (likeValues schema pn neg xs ps)" for xs
    using getColumnName_error [OF Inl] by (auto simp: likeValues_def Inl)
  have b: "\<not> isUndefinedValueError (likeValue schema pn neg x ps)" for x
    using getColumnName_error [OF Inl] by (cases x) (auto simp: likeValue_def Inl)
  show ?thesis
    by (cases v) (simp_all add: buildLikeOperatorStatement_def a b)
next
  case (Inr c)
  have a: "\<not> isUndefinedValueError (likeValues schema pn neg xs ps)" for xs
    by (simp add: likeValues_def Inr Let_def)
  have b: "\<not> isUndefinedValueError (likeValue schema pn neg x ps)" for x
    by (cases x) (simp_all add: likeValue_def Inr Let_def)
  show ?thesis
    by (cases v) (simp_all add: buildLikeOperatorStatement_def a b)
qed

lemma undefined_only:
  shows "isUndefinedValueError (buildWhere S schema pn cmp neg v ps) \<Longrightarrow> hasUndefined v"
    and "isUndefinedValueError (buildOrOperatorStatement S schema neg v ps) \<Longrightarrow> hasUndefined v"
    and "isUndefinedValueError (buildEach S schema pn neg vs ps) \<Longrightarrow> \<exists>x\<in>set vs. hasUndefined x"
    and "isUndefinedValueError (buildAndValues S schema pn neg es ps) \<Longrightarrow>
         \<exists>(k, x)\<in>set es. hasUndefined x"
proof (induction S schema pn cmp neg v ps and S schema neg v ps and S schema pn neg vs ps
    and S schema pn neg es ps
    rule: buildWhere_buildOrOperatorStatement_buildEach_buildAndValues.induct)
  case (1 S schema pn cmp neg v ps)
  note u = "1.prems"
  let ?k = "switchKey cmp pn"
  show ?case
  proof (cases ?k rule: dispatch_cases)
    case negation
    show ?thesis
    proof (cases "pn = Some ''!'' \<or> pn = Some ''not''")
      case True
      with negation u show ?thesis by (simp add: buildWhere_negation)
    next
      case False
      from negation False u
      have "isUndefinedValueError (buildWhere S schema pn None True v ps)"
        by (simp add: buildWhere_negation)
      then show ?thesis by (rule "1.IH"(1) [OF refl negation False])
    qed
  next
    case or
    then have n: "\<not> (?k = Some ''!'' \<or> ?k = Some ''not'')" by simp
    from or u have "isUndefinedValueError (buildOrOperatorStatement S schema neg v ps)"
      by (simp add: buildWhere_or)
    then show ?thesis by (rule "1.IH"(2) [OF refl n or])
  next
    case (pattern p)
    then have n: "\<not> (?k = Some ''!'' \<or> ?k = Some ''not'')" "?k \<noteq> Some ''or''" by auto
    note eq = buildWhere_pattern [OF pattern, of S schema neg v ps]
    show ?thesis
    proof (cases v)
      case (JStr s)
      with eq u have l: "isUndefinedValueError
          (buildWhere S schema pn (Some ''like'') neg (JStr (patternOf p s)) ps)" by simp
      from pattern(2) have "hasUndefined (JStr (patternOf p s))"
      proof (elim disjE)
        assume p: "p = ''contains''"
        with pattern have k: "?k = Some ''contains''" by simp
        from "1.IH"(3) [OF refl n k JStr] l p show ?thesis by (simp add: patternOf_def)
      next
        assume p: "p = ''startsWith''"
        with pattern have k: "?k \<noteq> Some ''contains''" "?k = Some ''startsWith''" by simp_all
        from "1.IH"(5) [OF refl n k JStr] l p show ?thesis by (simp add: patternOf_def)
      next
        assume p: "p = ''endsWith''"
        with pattern have k: "?k \<noteq> Some ''contains''" "?k \<noteq> Some ''startsWith''"
          "?k = Some ''endsWith''" by simp_all
        from "1.IH"(7) [OF refl n k JStr] l p show ?thesis by (simp add: patternOf_def)
      qed
      then show ?thesis by simp
    next
      case (JArr xs)
      show ?thesis
      proof (cases "list_all isString xs")
        case False
        with eq JArr u show ?thesis by simp
      next
        case True
        with eq JArr u have l: "isUndefinedValueError
            (buildWhere S schema pn (Some ''like'') neg
               (JArr (map (\<lambda>val. JStr (patternOf p (str_of val))) xs)) ps)" by simp
        from pattern(2)
        have "hasUndefined (JArr (map (\<lambda>val. JStr (patternOf p (str_of val))) xs))"
        proof (elim disjE)
          assume p: "p = ''contains''"
          with pattern have k: "?k = Some ''contains''" by simp
          from "1.IH"(4) [OF refl n k JArr True] l p show ?thesis by (simp add: patternOf_def)
        next
          assume p: "p = ''startsWith''"
          with pattern have k: "?k \<noteq> Some ''contains''" "?k = Some ''startsWith''"
            by simp_all
          from "1.IH"(6) [OF refl n k JArr True] l p show ?thesis by (simp add: patternOf_def)
        next
          assume p: "p = ''endsWith''"
          with pattern have k: "?k \<noteq> Some ''contains''" "?k \<noteq> Some ''startsWith''"
            "?k = Some ''endsWith''" by simp_all
          from "1.IH"(8) [OF refl n k JArr True] l p show ?thesis by (simp add: patternOf_def)
        qed
        then show ?thesis by simp
      qed
    qed (use eq u in simp_all)
  next
    case like
    with like_not_undefined [of schema pn neg v ps] u show ?thesis
      by (simp add: buildWhere_like)
  next
    case default
    note d = default_not_case [OF default]
    show ?thesis
    proof (cases "v = JUndefined")
      case True
      then show ?thesis by simp
    next
      case nu: False
      show ?thesis
      proof (cases "hydratedValue S schema pn v")
        case (Inl e)
        with default nu u hydrated_error [OF Inl] show ?thesis
          by (auto simp: buildWhere_hydrated_error)
      next
        case (Inr h)
        show ?thesis
        proof (cases h)
          case (Some x)
          from default nu Inr Some u
          have "isUndefinedValueError (buildWhere S schema pn cmp neg x ps)"
            by (simp add: buildWhere_hydrated)
          then have "hasUndefined x" by (rule "1.IH"(13) [OF refl d nu Inr Some])
          with Inr Some show ?thesis by (auto intro: hasUndefined_hydrated)
        next
          case None
          with Inr have h: "hydratedValue S schema pn v = Inr None" by simp
          show ?thesis
          proof (cases v)
            case (JArr xs)
            show ?thesis
            proof (cases "xs = []")
              case True
              with default h JArr u getColumnName_error [of schema pn] show ?thesis
                by (auto simp: buildWhere_empty_array split: if_splits sum.splits)
            next
              case ne: False
              let ?xs = "filter (\<lambda>item. \<not> isNull item) xs"
              note eq = buildWhere_array [OF default h [unfolded JArr] ne, of neg ps]
              show ?thesis
              proof (cases "buildEach S schema pn neg (filter isNull xs) ps")
                case (Inl e)
                with eq JArr u
                have "isUndefinedValueError (buildEach S schema pn neg (filter isNull xs) ps)"
                  by simp
                from "1.IH"(9) [OF refl d nu Inr None JArr ne this] JArr show ?thesis
                  by auto
              next
                case r: (Inr r)
                obtain ns p1 where r1: "r = (ns, p1)" by (cases r)
                from eq JArr u r r1
                have a: "isUndefinedValueError
                    (arrayValueConstraints S schema pn cmp neg ?xs p1)"
                  by (auto split: sum.splits)
                note ih10 = "1.IH"(10) [OF refl d nu Inr None JArr ne r [unfolded r1] refl refl]
                note ih11 = "1.IH"(11) [OF refl d nu Inr None JArr ne r [unfolded r1] refl refl]
                have "\<exists>x\<in>set ?xs. hasUndefined x"
                proof (cases "length ?xs = 1")
                  case True
                  with a have "isUndefinedValueError
                      (buildWhere S schema pn None neg (hd ?xs) p1)"
                    by (auto simp: arrayValueConstraints_def split: sum.splits)
                  from ih10 [OF True this] True show ?thesis
                    by (cases ?xs) auto
                next
                  case l: False
                  show ?thesis
                  proof (cases "?xs = []")
                    case True
                    with a show ?thesis by (simp add: arrayValueConstraints_def)
                  next
                    case False
                    show ?thesis
                    proof (cases "getColumnName schema pn")
                      case (Inl e)
                      with a l False getColumnName_error [OF Inl] show ?thesis
                        by (auto simp: arrayValueConstraints_def)
                    next
                      case c: (Inr c)
                      show ?thesis
                      proof (cases "isArrayType (propertyOrComparerType schema pn cmp)")
                        case True
                        with a l False c
                        have "isUndefinedValueError (buildEach S schema pn neg ?xs p1)"
                          by (simp add: arrayValueConstraints_def)
                        from ih11 [OF l False c refl True this] show ?thesis .
                      next
                        case f: False
                        with a l False c show ?thesis
                          by (simp add: arrayValueConstraints_def)
                      qed
                    qed
                  qed
                qed
                with JArr show ?thesis by auto
              qed
            qed
          next
            case (JObj es)
            from default h JObj u
            have "isUndefinedValueError (buildAndValues S schema pn neg es ps)"
              by (auto simp: buildWhere_object split: sum.splits)
            from "1.IH"(12) [OF refl d nu Inr None JObj this] JObj show ?thesis
              by simp
          qed (use default h nu u comparison_not_undefined [of schema pn cmp neg v ps] in
              \<open>simp_all add: buildWhere_scalar\<close>)
        qed
      qed
    qed
  qed
next
  case (2 S schema neg v ps)
  show ?case
  proof (cases v)
    case (JArr xs)
    with "2.prems" have "isUndefinedValueError (buildEach S schema None neg xs ps)"
      by (auto split: sum.splits)
    from "2.IH" [OF JArr this] JArr show ?thesis by simp
  qed (use "2.prems" in \<open>simp_all split: if_splits\<close>)
next
  case (3 S schema pn neg ps)
  then show ?case by simp
next
  case (4 S schema pn neg item items ps)
  show ?case
  proof (cases "buildWhere S schema pn None neg item ps")
    case (Inl e)
    with "4.prems" have "isUndefinedValueError (buildWhere S schema pn None neg item ps)"
      by simp
    from "4.IH"(1) [OF this] show ?thesis by simp
  next
    case (Inr r)
    obtain c p1 where r: "r = (c, p1)" by (cases r)
    with "4.prems" Inr have "isUndefinedValueError (buildEach S schema pn neg items p1)"
      by (auto split: sum.splits)
    from "4.IH"(2) [OF Inr [unfolded r] refl this] show ?thesis by simp
  qed
next
  case (5 S schema pn neg ps)
  then show ?case by simp
next
  case (6 S schema pn neg key w es ps)
  let ?c = "if isComparer key then Some key else None"
  let ?p = "if isComparer key then pn else Some key"
  show ?case
  proof (cases "buildWhere S schema ?p ?c neg w ps")
    case (Inl e)
    with "6.prems" have "isUndefinedValueError (buildWhere S schema ?p ?c neg w ps)"
      by (simp add: Let_def)
    from "6.IH"(1) [OF refl refl this] show ?thesis by simp
  next
    case (Inr r)
    obtain c p1 where r: "r = (c, p1)" by (cases r)
    with "6.prems" Inr have "isUndefinedValueError (buildAndValues S schema ?p neg es p1)"
      by (auto simp: Let_def split: sum.splits)
    from "6.IH"(2) [OF refl refl Inr [unfolded r] refl this] show ?thesis by simp
  qed
qed

text \<open>
  Claim C7, as the code has it. A value that reaches the default branch of the dispatch
  (a property with no comparer, or with a comparer that is no case label) and is
  \<^verbatim>\<open>undefined\<close> raises the undefined-value error; the where compiler raises that error
  only if the where tree holds an \<^verbatim>\<open>undefined\<close> somewhere; and \<^verbatim>\<open>null\<close> on a property of
  the schema is valid: it compiles to \<^verbatim>\<open>IS NULL\<close>, or \<^verbatim>\<open>IS NOT NULL\<close> when negated, and binds
  no parameter. An object given to a relation-typed property, whose model is registered,
  without a populated primary key of that model is not dereferenced and raises no error
  of its own: it is compiled as a nested where object under that property name, and its
  result, fragment or error, is that of its keys.
\<close>

theorem undefined_value_error:
  \<open>(switchKey cmp pn \<notin> Some ` set whereCases \<longrightarrow>
      buildWhere S schema pn cmp neg JUndefined ps =
        Inl (UndefinedValue (orEmpty pn) (globalId schema))) \<and>
   (buildWhere S schema pn cmp neg v ps = Inl (UndefinedValue p g) \<longrightarrow> hasUndefined v) \<and>
   (switchKey cmp pn \<notin> Some ` set whereCases \<and> getColumnName schema pn = Inr c \<longrightarrow>
      buildWhere S schema pn cmp neg JNull ps =
        Inr (''"'' @ c @ ''" '' @ (if neg then ''IS NOT'' else ''IS'') @ '' NULL'', ps)) \<and>
   (switchKey cmp (Some r) \<notin> Some ` set whereCases \<and>
    lookup (attributes schema) r = Some at \<and> truthy (attribute.model at) \<and>
    S (toLowerCase (the (attribute.model at))) = Some rs \<and>
    get_prop (JObj es) (getPrimaryKeyPropertyName rs) = JUndefined \<longrightarrow>
      buildWhere S schema (Some r) cmp neg (JObj es) ps =
        (case buildAndValues S schema (Some r) neg es ps of
           Inl e \<Rightarrow> Inl e
         | Inr (andValues, ps1) \<Rightarrow> Inr (join '' AND '' andValues, ps1)))\<close>
proof (intro conjI impI)
  assume "switchKey cmp pn \<notin> Some ` set whereCases"
  then show "buildWhere S schema pn cmp neg JUndefined ps =
      Inl (UndefinedValue (orEmpty pn) (globalId schema))"
    by (rule buildWhere_undefined)
next
  assume "buildWhere S schema pn cmp neg v ps = Inl (UndefinedValue p g)"
  then have "isUndefinedValueError (buildWhere S schema pn cmp neg v ps)" by simp
  then show "hasUndefined v" by (rule undefined_only(1))
next
  assume a: "switchKey cmp pn \<notin> Some ` set whereCases \<and> getColumnName schema pn = Inr c"
  have h: "hydratedValue S schema pn JNull = Inr None"
    by (simp add: hydratedValue_def split: option.splits)
  from a h show \<open>buildWhere S schema pn cmp neg JNull ps =
      Inr (''"'' @ c @ ''" '' @ (if neg then ''IS NOT'' else ''IS'') @ '' NULL'', ps)\<close>
    by (simp add: buildWhere_scalar buildComparisonOperatorStatement_def)
next
  assume a: "switchKey cmp (Some r) \<notin> Some ` set whereCases \<and>
    lookup (attributes schema) r = Some at \<and> truthy (attribute.model at) \<and>
    S (toLowerCase (the (attribute.model at))) = Some rs \<and>
    get_prop (JObj es) (getPrimaryKeyPropertyName rs) = JUndefined"
  then have h: "hydratedValue S schema (Some r) (JObj es) = Inr None"
    by (simp add: hydratedValue_def Let_def)
  from a show "buildWhere S schema (Some r) cmp neg (JObj es) ps =
        (case buildAndValues S schema (Some r) neg es ps of
           Inl e \<Rightarrow> Inl e
         | Inr (andValues, ps1) \<Rightarrow> Inr (join '' AND '' andValues, ps1))"
    by (simp add: buildWhere_object h)
qed

theorem undefined_value_error_witness:
  \<open>buildWhere exampleSchemas productSchema (Some ''name'') None False JUndefined [] =
     Inl (UndefinedValue ''name'' ''product'') \<and>
   hasUndefined (JObj [(''name'', JUndefined)]) \<and>
   buildWhere exampleSchemas productSchema (Some ''name'') None True JNull [] =
     Inr (''"name" IS NOT NULL'', []) \<and>
   buildWhere exampleSchemas productSchema (Some ''store'') None False
     (JObj [(''id'', JUndefined)]) [] = Inl (UndefinedValue ''id'' ''product'')\<close>
proof -
  have k: "switchKey None (Some ''name'') \<notin> Some ` set whereCases"
    by (simp add: whereCases_def)
  have c: "getColumnName productSchema (Some ''name'') = Inr ''name''"
    by code_simp
  have g: "globalId productSchema = ''product''"
    by (simp add: productSchema_def)
  have e: "buildWhere exampleSchemas productSchema None (Some ''and'') False
      (JObj [(''name'', JUndefined)]) [] = Inl (UndefinedValue ''name'' ''product'')"
    by code_simp
  have s: "switchKey None (Some ''store'') \<notin> Some ` set whereCases"
    by (simp add: whereCases_def)
  have l: "lookup (attributes productSchema) ''store'' =
      Some \<lparr>columnName = Some ''store_id'', attribute.type = None,
            attribute.model = Some ''Store'', primaryKey = False,
            attribute.collection = None\<rparr>"
    by (simp add: productSchema_def)
  have t: "exampleSchemas (toLowerCase ''Store'') = Some storeSchema"
    by code_simp
  have u: "get_prop (JObj [(''id'', JUndefined)]) (getPrimaryKeyPropertyName storeSchema) =
      JUndefined"
    by code_simp
  have b: "buildAndValues exampleSchemas productSchema (Some ''store'') False
      [(''id'', JUndefined)] [] = Inl (UndefinedValue ''id'' ''product'')"
    by code_simp
  from undefined_value_error [where cmp = None and pn = "Some ''name''" and S = exampleSchemas
      and schema = productSchema and neg = False and ps = "[]"] k g
  have 1: "buildWhere exampleSchemas productSchema (Some ''name'') None False JUndefined [] =
      Inl (UndefinedValue ''name'' ''product'')" by simp
  from undefined_value_error [where cmp = "Some ''and''" and pn = None and S = exampleSchemas
      and schema = productSchema and neg = False and ps = "[]"
      and v = "JObj [(''name'', JUndefined)]" and p = "''name''" and g = "''product''"] e
  have 2: "hasUndefined (JObj [(''name'', JUndefined)])" by blast
  from undefined_value_error [where cmp = None and pn = "Some ''name''" and S = exampleSchemas
      and schema = productSchema and neg = True and ps = "[]" and c = "''name''"] k c
  have 3: \<open>buildWhere exampleSchemas productSchema (Some ''name'') None True JNull [] =
      Inr (''"name" IS NOT NULL'', [])\<close> by simp
  from undefined_value_error [where cmp = None and r = "''store''" and S = exampleSchemas
      and schema = productSchema and neg = False and ps = "[]" and rs = storeSchema
      and es = "[(''id'', JUndefined)]"
      and at = "\<lparr>columnName = Some ''store_id'', attribute.type = None,
            attribute.model = Some ''Store'', primaryKey = False,
            attribute.collection = None\<rparr>"] s l t u b
  have 4: "buildWhere exampleSchemas productSchema (Some ''store'') None False
     (JObj [(''id'', JUndefined)]) [] = Inl (UndefinedValue ''id'' ''product'')"
    by simp
  from 1 2 3 4 show ?thesis by blast
qed

text \<open>
  The claim as the specification states it fails in both directions. The property
  \<^verbatim>\<open>store\<close> is a relation, and the object \<^verbatim>\<open>{name: 'x'}\<close> given to it lacks the primary key
  \<^verbatim>\<open>id\<close> of the related model: the where compiler raises nothing and compiles the object
  as a nested where object. An \<^verbatim>\<open>undefined\<close> among two values of an array is bound with
  the array, and an \<^verbatim>\<open>undefined\<close> given to \<^verbatim>\<open>like\<close> raises the error of an invalid
  constraint.
\<close>

theorem undefined_value_error_counterexample:
  \<open>buildWhere exampleSchemas productSchema None (Some ''and'') False
     (JObj [(''store'', JObj [(''name'', JStr ''x'')])]) [] =
     Inr (''"name"=$1'', [JStr ''x'']) \<and>
   get_prop (JObj [(''name'', JStr ''x'')]) (getPrimaryKeyPropertyName storeSchema) =
     JUndefined \<and>
   buildWhere exampleSchemas productSchema None (Some ''and'') False
     (JObj [(''name'', JArr [JUndefined, JStr ''a''])]) [] =
     Inr (''"name"=ANY($1::TEXT[])'', [JArr [JUndefined, JStr ''a'']]) \<and>
   buildWhere exampleSchemas productSchema None (Some ''and'') False
     (JObj [(''name'', JObj [(''like'', JUndefined)])]) [] =
     Inl (InvalidConstraint ''like'' ''name'' ''product'')\<close>
  by code_simp

end
